theory Spec2Isabelle
  imports Complex_Main "HOL-Library.Sublist" "HOL-Library.Multiset" "HOL-Library.Word"
begin

section \<open>Data model\<close>

text \<open>
  The relay of \<^verbatim>\<open>src/index.ts\<close>: chat webhook events are forwarded as email
  (\<^verbatim>\<open>textEventHandler\<close>, \<^verbatim>\<open>POST /webhook\<close>) and multipart form submissions are
  forwarded as chat messages (\<^verbatim>\<open>POST /email\<close>).

  JavaScript strings are kept as byte strings: an ASCII literal is written as it is in
  the source, a Japanese literal as the UTF-8 bytes it has in the source file. The
  handlers only concatenate and compare whole strings, which UTF-8 preserves. A
  \<^verbatim>\<open>Buffer\<close> is a list of bytes as well.
\<close>

type_synonym buffer = "char list"

text \<open>
  What a rejected promise or a thrown exception carries. The collaborators choose the
  error they reject with; the other two are the errors of a response write, named as
  the platform names them.
\<close>

datatype error = Error string | TypeError_circular_structure | ERR_HTTP_HEADERS_SENT

text \<open>\<^verbatim>\<open>WebhookEvent\<close> of the chat SDK, with the fields the handler reads.\<close>

record event_source =
  userId :: "string option"

record event_message =
  message_type :: string
  message_id :: string
  message_text :: string

record webhook_event =
  event_type :: string
  source :: event_source
  message :: event_message

record profile =
  displayName :: string

text \<open>\<^verbatim>\<open>sgMail.MailDataRequired\<close>, with the fields the handler sets.\<close>

record attachment =
  content :: string
  attachment_type :: string
  filename :: string

record sender =
  email :: string
  name :: string

record mail =
  mail_to :: "string list"
  mail_from :: sender
  subject :: string
  mail_text :: string
  attachments :: "attachment list option"

text \<open>The response of \<^verbatim>\<open>fetch\<close>: its Content-Type header and what \<^verbatim>\<open>res.buffer()\<close> settles to.\<close>

record fetch_response =
  header_content_type :: "string option"
  response_buffer :: "error + buffer"

record content_result =
  fileType :: string
  fileExtname :: string
  file_buffer :: buffer

text \<open>
  The form leg: \<^verbatim>\<open>Express.Multer.File\<close>, the request, and the chat SDK's \<^verbatim>\<open>Message\<close>.
  The three form fields are strings, as the multipart parser delivers them;
  \<^verbatim>\<open>req.files\<close> may be missing.
\<close>

record uploaded_file =
  buffer :: buffer
  originalname :: string

record email_request =
  body_from :: string
  body_subject :: string
  body_text :: string
  files :: "uploaded_file list option"

text \<open>
  A JavaScript number is an IEEE 754 double, kept as its 64 bits: the sign, eleven bits
  of exponent and fifty-two bits of fraction.
\<close>

type_synonym number = "64 word"

datatype chat_message =
    TextMessage (msg_text: string)
  | ImageMessage (originalContentUrl: string) (previewImageUrl: string)
  | VideoMessage (originalContentUrl: string) (previewImageUrl: string)
  | AudioMessage (originalContentUrl: string) (duration: number)

record file_type_result =
  ext :: string
  mime :: string

record audio_metadata =
  format_duration :: "number option"

text \<open>
  What a callback of \<^verbatim>\<open>events.map\<close> returns: nothing (\<^verbatim>\<open>undefined\<close>) when the
  handler completed, the response object \<^verbatim>\<open>res\<close> from the catch block.
\<close>

datatype slot = Undefined | Res

datatype body =
    StatusMessage string string
  | Status string
  | StatusResults string "slot list"
  | NoBody

text \<open>
  Effects are a log of the calls made to the collaborators, in call order. A call is
  logged when it is made, whether or not it then fails. \<^verbatim>\<open>Json n b\<close> is a response
  that \<^verbatim>\<open>res.status(n).json(b)\<close> has sent to the caller; a write that throws sends
  nothing and is not logged.
\<close>

datatype call =
    GetProfile string
  | Fetch string string
  | Send mail
  | Save string buffer
  | MakePublic string
  | PushMessage string chat_message
  | Json nat body

record world =
  calls :: "call list"
  uuids_drawn :: nat

definition world0 :: world where
  "world0 = \<lparr>calls = [], uuids_drawn = 0\<rparr>"

text \<open>
  The response object \<^verbatim>\<open>res\<close> of one request. The framework hands every request a
  response on which nothing has been sent.
\<close>

record response =
  headersSent :: bool

definition new_response :: response where
  "new_response = \<lparr>headersSent = False\<rparr>"

text \<open>
  The configuration and the collaborators. \<^verbatim>\<open>toEmailArray\<close> and \<^verbatim>\<open>groupId\<close> are
  the values computed from the environment at start-up. Each collaborator is a function
  of its arguments: \<open>Inl e\<close> or \<open>Some e\<close> is a rejection with \<open>e\<close>. \<^verbatim>\<open>uuidv4\<close> is
  the sequence of identifiers the generator hands out, indexed by the number of earlier
  draws.
\<close>

record env =
  CHANNEL_ACCESS_TOKEN :: "string option"
  toEmailArray :: "string list"
  groupId :: string
  middleware :: "webhook_event list \<Rightarrow> error option"
  getProfile :: "string \<Rightarrow> error + profile"
  fetch :: "string \<Rightarrow> string \<Rightarrow> error + fetch_response"
  mime_extension :: "string \<Rightarrow> string option"
  toString_base64 :: "buffer \<Rightarrow> string"
  sgMail_send :: "mail \<Rightarrow> error option"
  fromBuffer :: "buffer \<Rightarrow> error + file_type_result option"
  uuidv4 :: "nat \<Rightarrow> string"
  save :: "string \<Rightarrow> buffer \<Rightarrow> error option"
  makePublic :: "string \<Rightarrow> error option"
  publicUrl :: "string \<Rightarrow> string"
  parseBuffer :: "buffer \<Rightarrow> error + audio_metadata"
  pushMessage :: "string \<Rightarrow> chat_message \<Rightarrow> error option"

definition log_call :: "call \<Rightarrow> world \<Rightarrow> world" where
  "log_call c w = w\<lparr>calls := calls w @ [c]\<rparr>"

section \<open>JavaScript idioms\<close>

text \<open>A template literal prints \<^verbatim>\<open>undefined\<close> for a missing value.\<close>

definition template :: "string option \<Rightarrow> string" where
  "template v = (case v of None \<Rightarrow> ''undefined'' | Some s \<Rightarrow> s)"

text \<open>\<^verbatim>\<open>v || ""\<close>: a missing or false value and the empty string give the empty string.\<close>

definition or_empty :: "string option \<Rightarrow> string" where
  "or_empty v = (case v of None \<Rightarrow> [] | Some s \<Rightarrow> s)"

text \<open>
  The fields of a number. A number with all exponent bits set is an infinity when its
  fraction is zero and \<^verbatim>\<open>NaN\<close> otherwise; with no exponent bit set it is a zero or a
  subnormal number. A finite number is its significand times two to the power of its
  scale.
\<close>

definition number_sign :: "number \<Rightarrow> bool" where
  "number_sign x = (2 ^ 63 \<le> unat x)"

definition number_exponent :: "number \<Rightarrow> nat" where
  "number_exponent x = (unat x div 2 ^ 52) mod 2048"

definition number_fraction :: "number \<Rightarrow> nat" where
  "number_fraction x = unat x mod 2 ^ 52"

definition is_NaN :: "number \<Rightarrow> bool" where
  "is_NaN x = (number_exponent x = 2047 \<and> number_fraction x \<noteq> 0)"

definition is_infinite :: "number \<Rightarrow> bool" where
  "is_infinite x = (number_exponent x = 2047 \<and> number_fraction x = 0)"

definition is_zero :: "number \<Rightarrow> bool" where
  "is_zero x = (number_exponent x = 0 \<and> number_fraction x = 0)"

definition significand :: "number \<Rightarrow> nat" where
  "significand x =
     (if number_exponent x = 0 then number_fraction x else 2 ^ 52 + number_fraction x)"

definition scale :: "number \<Rightarrow> int" where
  "scale x = int (max 1 (number_exponent x)) - 1075"

text \<open>A number used as a condition is false when it is a zero or \<^verbatim>\<open>NaN\<close>.\<close>

definition number_truthy :: "number \<Rightarrow> bool" where
  "number_truthy x = (\<not> is_zero x \<and> \<not> is_NaN x)"

text \<open>
  The product \<^verbatim>\<open>x * y\<close>: the exact product of the two numbers, rounded to the nearest
  double, to the one with an even fraction when two are equally near, and to an infinity
  when it is out of range. \<open>round_to_number\<close> rounds the significand \<open>sig\<close> at the scale
  \<open>sc\<close>: \<open>e\<close> is the exponent of the result before rounding, not below that of the
  subnormal numbers, and \<open>q\<close> its significand of at most fifty-three bits.
\<close>

fun bit_length :: "nat \<Rightarrow> nat" where
  "bit_length n = (if n = 0 then 0 else Suc (bit_length (n div 2)))"

declare bit_length.simps [simp del]

definition round_half_even :: "nat \<Rightarrow> nat \<Rightarrow> nat" where
  "round_half_even n k =
     (let q = n div 2 ^ k; r = n mod 2 ^ k
      in if 2 ^ k < 2 * r \<or> (2 * r = 2 ^ k \<and> odd q) then q + 1 else q)"

definition make_number :: "bool \<Rightarrow> nat \<Rightarrow> number" where
  "make_number negative magnitude =
     word_of_nat ((if negative then 2 ^ 63 else 0) + magnitude)"

definition round_to_number :: "bool \<Rightarrow> nat \<Rightarrow> int \<Rightarrow> number" where
  "round_to_number negative sig sc =
     (let e = max (int (bit_length sig) - 1 + sc) (- 1022);
          shift = e - 52 - sc;
          q = (if shift \<le> 0 then sig * 2 ^ nat (- shift) else round_half_even sig (nat shift));
          magnitude = nat (e + 1022) * 2 ^ 52 + q
      in make_number negative (if 2047 * 2 ^ 52 \<le> magnitude then 2047 * 2 ^ 52 else magnitude))"

definition number_times :: "number \<Rightarrow> number \<Rightarrow> number" where
  "number_times x y =
     (if is_NaN x \<or> is_NaN y then 0x7FF8000000000000
      else if is_infinite x \<or> is_infinite y then
        (if is_zero x \<or> is_zero y then 0x7FF8000000000000
         else make_number (number_sign x \<noteq> number_sign y) (2047 * 2 ^ 52))
      else if significand x * significand y = 0
        then make_number (number_sign x \<noteq> number_sign y) 0
      else round_to_number (number_sign x \<noteq> number_sign y) (significand x * significand y)
             (scale x + scale y))"

text \<open>The literals \<^verbatim>\<open>0\<close> and \<^verbatim>\<open>1000\<close>.\<close>

definition number_0 :: number where
  "number_0 = 0x0000000000000000"

definition number_1000 :: number where
  "number_1000 = 0x408F400000000000"

text \<open>
  \<^verbatim>\<open>res.status(n).json(b)\<close> of the HTTP framework. The body is serialised first, which
  throws for a body that holds the response object itself, a circular structure. Then
  the headers are set, which throws once a response has been sent. Otherwise the
  response goes out.
\<close>

fun serialisable :: "body \<Rightarrow> bool" where
  "serialisable (StatusResults s results) = (Res \<notin> set results)"
| "serialisable b = True"

definition res_json :: "nat \<Rightarrow> body \<Rightarrow> response \<times> world \<Rightarrow> (error + unit) \<times> response \<times> world" where
  "res_json n b s =
     (case s of (res, w) \<Rightarrow>
        if \<not> serialisable b then (Inl TypeError_circular_structure, res, w)
        else if headersSent res then (Inl ERR_HTTP_HEADERS_SENT, res, w)
        else (Inr (), res\<lparr>headersSent := True\<rparr>, log_call (Json n b) w))"

text \<open>
  A \<^verbatim>\<open>switch\<close> statement is its list of clauses in source order. The discriminant
  selects the first clause whose label equals it, or the default clause when no label
  does; execution then runs the clause bodies from there on, in order, through every
  later clause whatever its label, until one breaks, returns or throws. Every outcome
  carries the state reached.
\<close>

datatype 'v label = Case 'v | Default

datatype 's flow = Fall 's | Break 's | Return 's | Throw error 's

fun run_from :: "('s \<Rightarrow> 's flow) list \<Rightarrow> 's \<Rightarrow> 's flow" where
  "run_from [] s = Fall s"
| "run_from (b # bs) s =
     (case b s of
        Fall s' \<Rightarrow> run_from bs s'
      | Break s' \<Rightarrow> Break s'
      | Return s' \<Rightarrow> Return s'
      | Throw e s' \<Rightarrow> Throw e s')"

fun first_match :: "'v \<Rightarrow> ('v label \<times> ('s \<Rightarrow> 's flow)) list \<Rightarrow> ('s \<Rightarrow> 's flow) list option" where
  "first_match v [] = None"
| "first_match v ((l, b) # cs) =
     (if l = Case v then Some (b # map snd cs) else first_match v cs)"

fun default_clause :: "('v label \<times> ('s \<Rightarrow> 's flow)) list \<Rightarrow> ('s \<Rightarrow> 's flow) list option" where
  "default_clause [] = None"
| "default_clause ((l, b) # cs) =
     (if l = Default then Some (b # map snd cs) else default_clause cs)"

definition switch :: "'v \<Rightarrow> ('v label \<times> ('s \<Rightarrow> 's flow)) list \<Rightarrow> 's \<Rightarrow> 's flow" where
  "switch v cs s =
     (case first_match v cs of
        Some bs \<Rightarrow> run_from bs s
      | None \<Rightarrow> (case default_clause cs of Some bs \<Rightarrow> run_from bs s | None \<Rightarrow> Fall s))"

section \<open>Chat to email\<close>

subsection \<open>String literals of the handler\<close>

definition lit_subject :: string where
  "lit_subject = [CHR 0xE6, CHR 0x96, CHR 0xB0, CHR 0xE7, CHR 0x9D, CHR 0x80, CHR 0xE3, CHR 0x83,
     CHR 0xA1, CHR 0xE3, CHR 0x83, CHR 0x83, CHR 0xE3, CHR 0x82, CHR 0xBB, CHR 0xE3, CHR 0x83,
     CHR 0xBC, CHR 0xE3, CHR 0x82, CHR 0xB8]"

definition lit_san :: string where
  "lit_san = [CHR 0xE3, CHR 0x81, CHR 0x95, CHR 0xE3, CHR 0x82, CHR 0x93]"

definition lit_user :: string where
  "lit_user = [CHR 0xE3, CHR 0x83, CHR 0xA6, CHR 0xE3, CHR 0x83, CHR 0xBC, CHR 0xE3, CHR 0x82,
     CHR 0xB6, CHR 0xE3, CHR 0x83, CHR 0xBC]"

definition lit_kara_no_message :: string where
  "lit_kara_no_message = [CHR 0xE3, CHR 0x81, CHR 0x8B, CHR 0xE3, CHR 0x82, CHR 0x89, CHR 0xE3,
     CHR 0x81, CHR 0xAE, CHR 0xE3, CHR 0x83, CHR 0xA1, CHR 0xE3, CHR 0x83, CHR 0x83, CHR 0xE3,
     CHR 0x82, CHR 0xBB, CHR 0xE3, CHR 0x83, CHR 0xBC, CHR 0xE3, CHR 0x82, CHR 0xB8]"

definition lit_image :: string where
  "lit_image = [CHR 0xE7, CHR 0x94, CHR 0xBB, CHR 0xE5, CHR 0x83, CHR 0x8F, CHR 0xE3, CHR 0x83,
     CHR 0xA1, CHR 0xE3, CHR 0x83, CHR 0x83, CHR 0xE3, CHR 0x82, CHR 0xBB, CHR 0xE3, CHR 0x83,
     CHR 0xBC, CHR 0xE3, CHR 0x82, CHR 0xB8]"

definition lit_video :: string where
  "lit_video = [CHR 0xE5, CHR 0x8B, CHR 0x95, CHR 0xE7, CHR 0x94, CHR 0xBB, CHR 0xE3, CHR 0x83,
     CHR 0xA1, CHR 0xE3, CHR 0x83, CHR 0x83, CHR 0xE3, CHR 0x82, CHR 0xBB, CHR 0xE3, CHR 0x83,
     CHR 0xBC, CHR 0xE3, CHR 0x82, CHR 0xB8]"

definition lit_audio :: string where
  "lit_audio = [CHR 0xE9, CHR 0x9F, CHR 0xB3, CHR 0xE5, CHR 0xA3, CHR 0xB0, CHR 0xE3, CHR 0x83,
     CHR 0xA1, CHR 0xE3, CHR 0x83, CHR 0x83, CHR 0xE3, CHR 0x82, CHR 0xBB, CHR 0xE3, CHR 0x83,
     CHR 0xBC, CHR 0xE3, CHR 0x82, CHR 0xB8]"

definition lit_file :: string where
  "lit_file = [CHR 0xE3, CHR 0x83, CHR 0x95, CHR 0xE3, CHR 0x82, CHR 0xA1, CHR 0xE3, CHR 0x82,
     CHR 0xA4, CHR 0xE3, CHR 0x83, CHR 0xAB, CHR 0xE3, CHR 0x83, CHR 0xA1, CHR 0xE3, CHR 0x83,
     CHR 0x83, CHR 0xE3, CHR 0x82, CHR 0xBB, CHR 0xE3, CHR 0x83, CHR 0xBC, CHR 0xE3, CHR 0x82,
     CHR 0xB8]"

definition lit_sticker :: string where
  "lit_sticker = [CHR 0xE3, CHR 0x82, CHR 0xB9, CHR 0xE3, CHR 0x82, CHR 0xBF, CHR 0xE3, CHR 0x83,
     CHR 0xB3, CHR 0xE3, CHR 0x83, CHR 0x97]"

subsection \<open>getContent\<close>

definition getContent :: "env \<Rightarrow> string \<Rightarrow> world \<Rightarrow> (error + content_result) \<times> world" where
  "getContent env eventMessageId w =
     (let url = ''https://api-data.line.me/v2/bot/message/'' @ eventMessageId @ ''/content'';
          authorization = ''Bearer '' @ template (CHANNEL_ACCESS_TOKEN env);
          w' = log_call (Fetch url authorization) w
      in case fetch env url authorization of
           Inl e \<Rightarrow> (Inl e, w')
         | Inr res \<Rightarrow>
             (let ft = or_empty (header_content_type res);
                  fe = or_empty (mime_extension env ft)
              in case response_buffer res of
                   Inl e \<Rightarrow> (Inl e, w')
                 | Inr f \<Rightarrow> (Inr \<lparr>fileType = ft, fileExtname = fe, file_buffer = f\<rparr>, w')))"

subsection \<open>textEventHandler\<close>

text \<open>
  The greeting of lines 90 to 94: the condition \<^verbatim>\<open>event.source.userId ? ... : ...\<close>
  holds for a user id that is present and not the empty string.
\<close>

definition greeting :: "env \<Rightarrow> webhook_event \<Rightarrow> world \<Rightarrow> (error + string) \<times> world" where
  "greeting env event w =
     (case userId (source event) of
        None \<Rightarrow> (Inr (lit_user @ lit_kara_no_message), w)
      | Some u \<Rightarrow>
          if u \<noteq> [] then
            (case getProfile env u of
               Inl e \<Rightarrow> (Inl e, log_call (GetProfile u) w)
             | Inr p \<Rightarrow> (Inr (displayName p @ lit_san @ lit_kara_no_message),
                         log_call (GetProfile u) w))
          else (Inr (lit_user @ lit_kara_no_message), w))"

text \<open>
  The state of the switch of lines 97 to 151 is the message under construction and the
  log. The clauses are listed as the source lists them, the labels \<^verbatim>\<open>"image"\<close>,
  \<^verbatim>\<open>"video"\<close>, \<^verbatim>\<open>"audio"\<close> and \<^verbatim>\<open>"file"\<close> twice each; the clause of line 107 ends
  without a break.
\<close>

definition append_line :: "string \<Rightarrow> mail \<times> world \<Rightarrow> (mail \<times> world) flow" where
  "append_line l s =
     (case s of (msg, w) \<Rightarrow>
        Break (msg\<lparr>mail_text := mail_text msg @ ''\<newline>\<newline>'' @ l\<rparr>, w))"

definition attach_content :: "env \<Rightarrow> webhook_event \<Rightarrow> mail \<times> world \<Rightarrow> (mail \<times> world) flow" where
  "attach_content env event s =
     (case s of (msg, w) \<Rightarrow>
        (case getContent env (message_id (message event)) w of
           (Inl e, w') \<Rightarrow> Throw e (msg, w')
         | (Inr c, w') \<Rightarrow>
             Fall (msg\<lparr>attachments :=
                          Some [\<lparr>content = toString_base64 env (file_buffer c),
                                 attachment_type = fileType c,
                                 filename = fileExtname c\<rparr>]\<rparr>, w')))"

definition message_clauses ::
  "env \<Rightarrow> webhook_event \<Rightarrow> (string label \<times> (mail \<times> world \<Rightarrow> (mail \<times> world) flow)) list" where
  "message_clauses env event =
     [(Case ''text'', append_line (message_text (message event))),
      (Case ''image'', Fall),
      (Case ''video'', Fall),
      (Case ''audio'', Fall),
      (Case ''file'', attach_content env event),
      (Case ''image'', append_line lit_image),
      (Case ''video'', append_line lit_video),
      (Case ''audio'', append_line lit_audio),
      (Case ''file'', append_line lit_file),
      (Case ''sticker'', append_line lit_sticker),
      (Default, Return)]"

definition initial_mail :: "env \<Rightarrow> string \<Rightarrow> mail" where
  "initial_mail env g =
     \<lparr>mail_to = toEmailArray env,
      mail_from = \<lparr>email = ''line@line-to-email.futa.io'', name = ''line-to-email''\<rparr>,
      subject = lit_subject,
      mail_text = g,
      attachments = None\<rparr>"

definition send_mail :: "env \<Rightarrow> mail \<Rightarrow> world \<Rightarrow> (error + unit) \<times> world" where
  "send_mail env msg w =
     (case sgMail_send env msg of
        Some e \<Rightarrow> (Inl e, log_call (Send msg) w)
      | None \<Rightarrow> (Inr (), log_call (Send msg) w))"

definition textEventHandler :: "env \<Rightarrow> webhook_event \<Rightarrow> world \<Rightarrow> (error + unit) \<times> world" where
  "textEventHandler env event w =
     (if event_type event \<noteq> ''message'' then (Inr (), w)
      else
        (case greeting env event w of
           (Inl e, w1) \<Rightarrow> (Inl e, w1)
         | (Inr g, w1) \<Rightarrow>
             (case switch (message_type (message event)) (message_clauses env event)
                     (initial_mail env g, w1) of
                Throw e (msg, w2) \<Rightarrow> (Inl e, w2)
              | Return (msg, w2) \<Rightarrow> (Inr (), w2)
              | Break (msg, w2) \<Rightarrow> send_mail env msg w2
              | Fall (msg, w2) \<Rightarrow> send_mail env msg w2)))"

subsection \<open>POST /webhook\<close>

text \<open>
  The callback of \<^verbatim>\<open>events.map\<close> (lines 183 to 196) for one event, as the event loop
  runs it: one action for each time the callback runs. Every call of
  \<^verbatim>\<open>textEventHandler\<close> is awaited where it is made, so the callback issues one call,
  is suspended, and goes on when the answer has come. When the handler has thrown, the
  catch block runs last. The calls of the handler and its outcome do not depend on the
  log (lemma \<open>textEventHandler_frame\<close>); they are read off a run from the empty log.
\<close>

datatype action = Issue call | Catch

definition event_callback :: "env \<Rightarrow> webhook_event \<Rightarrow> action list" where
  "event_callback env event =
     (case textEventHandler env event world0 of
        (Inr u, w) \<Rightarrow> map Issue (calls w)
      | (Inl err, w) \<Rightarrow> map Issue (calls w) @ [Catch])"

text \<open>
  The state of the batch: the rejection that has settled \<^verbatim>\<open>Promise.all\<close>, if any, the
  response object and the log. The catch block writes the 500 response and returns
  \<^verbatim>\<open>res\<close>; when the write throws, the callback is rejected, and the first rejection
  is the one \<^verbatim>\<open>Promise.all\<close> rejects with.
\<close>

fun perform :: "action \<Rightarrow> error option \<times> response \<times> world \<Rightarrow> error option \<times> response \<times> world" where
  "perform (Issue c) (rejected, res, w) = (rejected, res, log_call c w)"
| "perform Catch (rejected, res, w) =
     (case res_json 500 (Status ''error'') (res, w) of
        (Inl e, res', w') \<Rightarrow>
          ((case rejected of None \<Rightarrow> Some e | Some e0 \<Rightarrow> Some e0), res', w')
      | (Inr u, res', w') \<Rightarrow> (rejected, res', w'))"

text \<open>
  The order in which suspended callbacks go on is the order in which the answers come,
  which the program does not decide: it is the parameter \<open>sched\<close>, the list of the
  callbacks' indices in the order they are resumed. An index that is out of range or
  names a callback that has ended is passed over; when the list is used up, the
  callbacks that are left run to their end in array order. Every run of the program is
  the run of some list.
\<close>

fun interleave :: "nat list \<Rightarrow> 'a list list \<Rightarrow> 'a list" where
  "interleave [] qs = concat qs"
| "interleave (i # sched) qs =
     (if i < length qs then
        (case qs ! i of
           [] \<Rightarrow> interleave sched qs
         | a # as \<Rightarrow> a # interleave sched (qs[i := as]))
      else interleave sched qs)"

text \<open>
  \<^verbatim>\<open>Promise.all(events.map(...))\<close>: \<^verbatim>\<open>map\<close> runs every callback in array order up
  to its first await, so the first action of each comes first; the others follow as
  they are resumed. All callbacks run to their end, also after a rejection. The result
  is the first rejection, or else the array of what the callbacks returned: nothing
  for an event that was handled, \<^verbatim>\<open>res\<close> from the catch block.
\<close>

definition promise_all_map ::
  "env \<Rightarrow> webhook_event list \<Rightarrow> nat list \<Rightarrow> response \<times> world \<Rightarrow>
   (error + slot list) \<times> response \<times> world" where
  "promise_all_map env events sched s =
     (case s of (res, w) \<Rightarrow>
        (let callbacks = map (event_callback env) events;
             order = concat (map (take 1) callbacks) @ interleave sched (map (drop 1) callbacks)
         in case fold perform order (None, res, w) of
              (Some e, res', w') \<Rightarrow> (Inl e, res', w')
            | (None, res', w') \<Rightarrow>
                (Inr (map (\<lambda>actions. if Catch \<in> set actions then Res else Undefined) callbacks),
                 res', w')))"

text \<open>The handler of lines 178 to 204, called with a new response.\<close>

definition webhook_handler ::
  "env \<Rightarrow> webhook_event list \<Rightarrow> nat list \<Rightarrow> world \<Rightarrow> (error + unit) \<times> world" where
  "webhook_handler env events sched w =
     (case promise_all_map env events sched (new_response, w) of
        (Inl e, res, w') \<Rightarrow> (Inl e, w')
      | (Inr results, res, w') \<Rightarrow>
          (case res_json 200 (StatusResults ''success'' results) (res, w') of
             (r, res', w'') \<Rightarrow> (r, w'')))"

text \<open>
  The route: the signature middleware runs first and hands an invalid request to the
  framework's error handling, so that the handler does not run.
\<close>

definition post_webhook ::
  "env \<Rightarrow> webhook_event list \<Rightarrow> nat list \<Rightarrow> world \<Rightarrow> (error + unit) \<times> world" where
  "post_webhook env events sched w =
     (case middleware env events of
        Some e \<Rightarrow> (Inl e, w)
      | None \<Rightarrow> webhook_handler env events sched w)"

section \<open>Form to chat\<close>

subsection \<open>GET /\<close>

definition get_root :: "world \<Rightarrow> (error + unit) \<times> world" where
  "get_root w =
     (case res_json 200 (StatusMessage ''success'' ''Connected successfully!'') (new_response, w) of
        (r, res, w') \<Rightarrow> (r, w'))"

subsection \<open>POST /email\<close>

text \<open>
  Lines 229 to 232: the object key is made of a newly drawn identifier (the \<open>n\<close>-th of
  the generator, after \<open>n\<close> earlier draws) and the file's name; the buffer is saved
  under it, the object is made public, and its public URL is the result.
\<close>

definition object_key :: "env \<Rightarrow> nat \<Rightarrow> string \<Rightarrow> string" where
  "object_key env n fileName = ''line-to-email/'' @ uuidv4 env n @ ''-'' @ fileName"

definition upload_file :: "env \<Rightarrow> uploaded_file \<Rightarrow> world \<Rightarrow> (error + string) \<times> world" where
  "upload_file env fileObject w =
     (let key = object_key env (uuids_drawn w) (originalname fileObject);
          w1 = log_call (Save key (buffer fileObject)) (w\<lparr>uuids_drawn := Suc (uuids_drawn w)\<rparr>)
      in case save env key (buffer fileObject) of
           Some e \<Rightarrow> (Inl e, w1)
         | None \<Rightarrow>
             (let w2 = log_call (MakePublic key) w1
              in case makePublic env key of
                   Some e \<Rightarrow> (Inl e, w2)
                 | None \<Rightarrow> (Inr (publicUrl env key), w2)))"

text \<open>
  The switch of lines 234 to 269 on the sniffed type, which is \<open>None\<close> when the sniffer
  found none. Its state is the message array and the log.
\<close>

definition push_image :: "string \<Rightarrow> chat_message list \<times> world \<Rightarrow> (chat_message list \<times> world) flow" where
  "push_image fileUrl s =
     (case s of (messageArray, w) \<Rightarrow> Break (messageArray @ [ImageMessage fileUrl fileUrl], w))"

definition push_video :: "string \<Rightarrow> chat_message list \<times> world \<Rightarrow> (chat_message list \<times> world) flow" where
  "push_video fileUrl s =
     (case s of (messageArray, w) \<Rightarrow> Break (messageArray @ [VideoMessage fileUrl fileUrl], w))"

definition duration_ms :: "audio_metadata \<Rightarrow> number" where
  "duration_ms metadata =
     (case format_duration metadata of
        None \<Rightarrow> number_0
      | Some d \<Rightarrow> if number_truthy d then number_times d number_1000 else number_0)"

definition push_audio ::
  "env \<Rightarrow> buffer \<Rightarrow> string \<Rightarrow> chat_message list \<times> world \<Rightarrow> (chat_message list \<times> world) flow" where
  "push_audio env f fileUrl s =
     (case s of (messageArray, w) \<Rightarrow>
        (case parseBuffer env f of
           Inl e \<Rightarrow> Throw e (messageArray, w)
         | Inr metadata \<Rightarrow> Break (messageArray @ [AudioMessage fileUrl (duration_ms metadata)], w)))"

definition file_clauses ::
  "env \<Rightarrow> buffer \<Rightarrow> string \<Rightarrow>
   (string option label \<times> (chat_message list \<times> world \<Rightarrow> (chat_message list \<times> world) flow)) list" where
  "file_clauses env f fileUrl =
     [(Case (Some ''image/jpeg''), Fall),
      (Case (Some ''image/png''), push_image fileUrl),
      (Case (Some ''video/mp4''), Fall),
      (Case (Some ''video/x-m4v''), push_video fileUrl),
      (Case (Some ''audio/mp4''), Fall),
      (Case (Some ''audio/x-m4a''), push_audio env f fileUrl),
      (Default, Break)]"

text \<open>
  The body of the loop over the files, lines 225 to 269. No clause of its switch returns
  from the handler, so that outcome is listed with the ones that go on.
\<close>

definition file_step ::
  "env \<Rightarrow> uploaded_file \<Rightarrow> chat_message list \<Rightarrow> world \<Rightarrow> (error + chat_message list) \<times> world" where
  "file_step env fileObject messageArray w =
     (case fromBuffer env (buffer fileObject) of
        Inl e \<Rightarrow> (Inl e, w)
      | Inr r \<Rightarrow>
          (case upload_file env fileObject w of
             (Inl e, w1) \<Rightarrow> (Inl e, w1)
           | (Inr fileUrl, w1) \<Rightarrow>
               (case switch (map_option mime r) (file_clauses env (buffer fileObject) fileUrl)
                       (messageArray, w1) of
                  Throw e (ma, w2) \<Rightarrow> (Inl e, w2)
                | Break (ma, w2) \<Rightarrow> (Inr ma, w2)
                | Fall (ma, w2) \<Rightarrow> (Inr ma, w2)
                | Return (ma, w2) \<Rightarrow> (Inr ma, w2))))"

fun for_files ::
  "env \<Rightarrow> uploaded_file list \<Rightarrow> chat_message list \<Rightarrow> world \<Rightarrow> (error + chat_message list) \<times> world" where
  "for_files env [] messageArray w = (Inr messageArray, w)"
| "for_files env (fileObject # rest) messageArray w =
     (case file_step env fileObject messageArray w of
        (Inl e, w') \<Rightarrow> (Inl e, w')
      | (Inr ma, w') \<Rightarrow> for_files env rest ma w')"

text \<open>The loop of lines 275 to 277: one call per message, stopping at the first rejection.\<close>

fun push_all :: "env \<Rightarrow> chat_message list \<Rightarrow> world \<Rightarrow> (error + unit) \<times> world" where
  "push_all env [] w = (Inr (), w)"
| "push_all env (m # ms) w =
     (case pushMessage env (groupId env) m of
        Some e \<Rightarrow> (Inl e, log_call (PushMessage (groupId env) m) w)
      | None \<Rightarrow> push_all env ms (log_call (PushMessage (groupId env) m) w))"

definition first_message :: "email_request \<Rightarrow> chat_message" where
  "first_message req =
     TextMessage (''From: '' @ body_from req @ ''\<newline>Subject: '' @ body_subject req
                  @ ''\<newline>\<newline>'' @ body_text req)"

text \<open>The handler of lines 210 to 280, called with a new response.\<close>

definition email_handler :: "env \<Rightarrow> email_request \<Rightarrow> world \<Rightarrow> (error + unit) \<times> world" where
  "email_handler env req w =
     (case (case files req of
              None \<Rightarrow> (Inr [first_message req], w)
            | Some fs \<Rightarrow> for_files env fs [first_message req] w) of
        (Inl e, w1) \<Rightarrow> (Inl e, w1)
      | (Inr messageArray, w1) \<Rightarrow>
          (case push_all env messageArray w1 of
             (Inl e, w2) \<Rightarrow> (Inl e, w2)
           | (Inr u, w2) \<Rightarrow>
               (case res_json 200 NoBody (new_response, w2) of (r, res, w3) \<Rightarrow> (r, w3))))"

section \<open>Reading the log\<close>

fun sent :: "call list \<Rightarrow> mail list" where
  "sent [] = []"
| "sent (Send m # cs) = m # sent cs"
| "sent (c # cs) = sent cs"

fun pushed :: "call list \<Rightarrow> (string \<times> chat_message) list" where
  "pushed [] = []"
| "pushed (PushMessage g m # cs) = (g, m) # pushed cs"
| "pushed (c # cs) = pushed cs"

fun responses :: "call list \<Rightarrow> (nat \<times> body) list" where
  "responses [] = []"
| "responses (Json n b # cs) = (n, b) # responses cs"
| "responses (c # cs) = responses cs"

fun stored :: "call list \<Rightarrow> call list" where
  "stored [] = []"
| "stored (Save k f # cs) = Save k f # stored cs"
| "stored (MakePublic k # cs) = MakePublic k # stored cs"
| "stored (c # cs) = stored cs"

text \<open>The calls among the actions of a callback.\<close>

fun issued :: "action list \<Rightarrow> call list" where
  "issued [] = []"
| "issued (Issue c # as) = c # issued as"
| "issued (Catch # as) = issued as"

section \<open>Sample inputs\<close>

text \<open>
  A configuration in which every collaborator answers, except that only the user
  \<^verbatim>\<open>U1\<close> has a profile; the content endpoint serves the three bytes \<^verbatim>\<open>abc\<close> as
  \<^verbatim>\<open>video/mp4\<close>. The sniffer knows three buffers, and the metadata parser finds in
  the audio one the duration \<^verbatim>\<open>1.005\<close>, the double with the bits
  \<^verbatim>\<open>3FF0147AE147AE14\<close>.
\<close>

definition env0 :: env where
  "env0 =
     \<lparr>CHANNEL_ACCESS_TOKEN = Some ''token'',
      toEmailArray = [''to@example.com''],
      groupId = ''G1'',
      middleware = (\<lambda>events. None),
      getProfile = (\<lambda>u. if u = ''U1'' then Inr \<lparr>displayName = ''Alice''\<rparr>
                         else Inl (Error ''profile'')),
      fetch = (\<lambda>url authorization.
                 Inr \<lparr>header_content_type = Some ''video/mp4'', response_buffer = Inr ''abc''\<rparr>),
      mime_extension = (\<lambda>t. if t = ''video/mp4'' then Some ''mp4'' else None),
      toString_base64 = (\<lambda>b. if b = ''abc'' then ''YWJj'' else []),
      sgMail_send = (\<lambda>m. None),
      fromBuffer = (\<lambda>b. if b = ''JPEG'' then Inr (Some \<lparr>ext = ''jpg'', mime = ''image/jpeg''\<rparr>)
                         else if b = ''M4A'' then Inr (Some \<lparr>ext = ''m4a'', mime = ''audio/x-m4a''\<rparr>)
                         else if b = ''PDF'' then Inr (Some \<lparr>ext = ''pdf'', mime = ''application/pdf''\<rparr>)
                         else Inr None),
      uuidv4 = (\<lambda>n. if n = 0 then ''id0'' else if n = 1 then ''id1'' else ''id2''),
      save = (\<lambda>k b. None),
      makePublic = (\<lambda>k. None),
      publicUrl = (\<lambda>k. ''https://storage.example/'' @ k),
      parseBuffer = (\<lambda>b. if b = ''M4A'' then Inr \<lparr>format_duration = Some 0x3FF0147AE147AE14\<rparr>
                          else Inr \<lparr>format_duration = None\<rparr>),
      pushMessage = (\<lambda>g m. None)\<rparr>"

definition text_event :: webhook_event where
  "text_event =
     \<lparr>event_type = ''message'', source = \<lparr>userId = Some ''U1''\<rparr>,
      message = \<lparr>message_type = ''text'', message_id = ''1'', message_text = ''hello''\<rparr>\<rparr>"

definition video_event :: webhook_event where
  "video_event =
     \<lparr>event_type = ''message'', source = \<lparr>userId = Some ''U1''\<rparr>,
      message = \<lparr>message_type = ''video'', message_id = ''2'', message_text = []\<rparr>\<rparr>"

definition sticker_event :: webhook_event where
  "sticker_event =
     \<lparr>event_type = ''message'', source = \<lparr>userId = None\<rparr>,
      message = \<lparr>message_type = ''sticker'', message_id = ''3'', message_text = []\<rparr>\<rparr>"

text \<open>A location message from a user whose profile cannot be fetched.\<close>

definition location_event :: webhook_event where
  "location_event =
     \<lparr>event_type = ''message'', source = \<lparr>userId = Some ''U2''\<rparr>,
      message = \<lparr>message_type = ''location'', message_id = ''4'', message_text = []\<rparr>\<rparr>"

definition no_files_request :: email_request where
  "no_files_request =
     \<lparr>body_from = ''a@example.com'', body_subject = ''Hi'', body_text = ''Body'', files = None\<rparr>"

definition jpeg_request :: email_request where
  "jpeg_request =
     \<lparr>body_from = ''a@example.com'', body_subject = ''Hi'', body_text = ''Body'',
      files = Some [\<lparr>buffer = ''JPEG'', originalname = ''p.jpg''\<rparr>]\<rparr>"

definition audio_request :: email_request where
  "audio_request =
     \<lparr>body_from = ''a@example.com'', body_subject = ''Hi'', body_text = ''Body'',
      files = Some [\<lparr>buffer = ''M4A'', originalname = ''v.m4a''\<rparr>]\<rparr>"

text \<open>A PDF, a file of no type the sniffer knows, and a JPEG.\<close>

definition mixed_request :: email_request where
  "mixed_request =
     \<lparr>body_from = ''a@example.com'', body_subject = ''Hi'', body_text = ''Body'',
      files = Some [\<lparr>buffer = ''PDF'', originalname = ''d.pdf''\<rparr>,
                    \<lparr>buffer = ''plain'', originalname = ''n.txt''\<rparr>,
                    \<lparr>buffer = ''JPEG'', originalname = ''p.jpg''\<rparr>]\<rparr>"

section \<open>Lemmas on the log and on the two switches\<close>

lemma sent_append: "sent (xs @ ys) = sent xs @ sent ys"
  by (induction xs rule: sent.induct) simp_all

lemma pushed_append: "pushed (xs @ ys) = pushed xs @ pushed ys"
  by (induction xs rule: pushed.induct) simp_all

lemma responses_append: "responses (xs @ ys) = responses xs @ responses ys"
  by (induction xs rule: responses.induct) simp_all

lemma stored_append: "stored (xs @ ys) = stored xs @ stored ys"
  by (induction xs rule: stored.induct) simp_all

text \<open>
  Which clause bodies run for each discriminant. In the switch on the message kind the
  four media kinds all enter at the first group of labels, run the attachment clause
  and fall into the clause of line 119, whose break ends the switch.
\<close>

lemma message_switch:
  "switch v (message_clauses env event) s =
     (if v = ''text'' then append_line (message_text (message event)) s
      else if v = ''image'' \<or> v = ''video'' \<or> v = ''audio'' \<or> v = ''file'' then
        (case attach_content env event s of
           Fall s' \<Rightarrow> append_line lit_image s'
         | Break s' \<Rightarrow> Break s'
         | Return s' \<Rightarrow> Return s'
         | Throw e s' \<Rightarrow> Throw e s')
      else if v = ''sticker'' then append_line lit_sticker s
      else Return s)"
  by (auto simp: switch_def message_clauses_def append_line_def split: flow.splits prod.splits)

lemma file_switch:
  "switch t (file_clauses env f url) s =
     (if t = Some ''image/jpeg'' \<or> t = Some ''image/png'' then push_image url s
      else if t = Some ''video/mp4'' \<or> t = Some ''video/x-m4v'' then push_video url s
      else if t = Some ''audio/mp4'' \<or> t = Some ''audio/x-m4a'' then push_audio env f url s
      else Break s)"
  by (auto simp: switch_def file_clauses_def push_image_def push_video_def push_audio_def
      split: flow.splits prod.splits sum.splits)


subsection \<open>The handler of one event only adds calls to the log\<close>

lemma world_calls_id [simp]: "w\<lparr>calls := calls w\<rparr> = w"
  by simp

lemma greeting_frame:
  "greeting env event w =
     (fst (greeting env event world0), w\<lparr>calls := calls w @ calls (snd (greeting env event world0))\<rparr>)"
  by (simp add: greeting_def log_call_def world0_def split: option.splits sum.splits)

lemma getContent_frame:
  "getContent env i w =
     (fst (getContent env i world0), w\<lparr>calls := calls w @ calls (snd (getContent env i world0))\<rparr>)"
  by (simp add: getContent_def log_call_def world0_def Let_def split: option.splits sum.splits)

lemma send_mail_frame:
  "send_mail env m w =
     (fst (send_mail env m world0), w\<lparr>calls := calls w @ calls (snd (send_mail env m world0))\<rparr>)"
  by (simp add: send_mail_def log_call_def world0_def split: option.splits)

lemma dispatch_frame:
  "(case switch v (message_clauses env event) (m, w) of
      Throw e (msg, w2) \<Rightarrow> (Inl e, w2)
    | Return (msg, w2) \<Rightarrow> (Inr (), w2)
    | Break (msg, w2) \<Rightarrow> send_mail env msg w2
    | Fall (msg, w2) \<Rightarrow> send_mail env msg w2) =
   (fst (case switch v (message_clauses env event) (m, world0) of
      Throw e (msg, w2) \<Rightarrow> (Inl e, w2)
    | Return (msg, w2) \<Rightarrow> (Inr (), w2)
    | Break (msg, w2) \<Rightarrow> send_mail env msg w2
    | Fall (msg, w2) \<Rightarrow> send_mail env msg w2),
    w\<lparr>calls := calls w @ calls (snd (case switch v (message_clauses env event) (m, world0) of
      Throw e (msg, w2) \<Rightarrow> (Inl e, w2)
    | Return (msg, w2) \<Rightarrow> (Inr (), w2)
    | Break (msg, w2) \<Rightarrow> send_mail env msg w2
    | Fall (msg, w2) \<Rightarrow> send_mail env msg w2))\<rparr>)"
  by (simp add: message_switch attach_content_def
      getContent_def send_mail_def log_call_def append_line_def world0_def Let_def
      split: option.splits sum.splits)

lemma textEventHandler_frame:
  "textEventHandler env event w =
     (fst (textEventHandler env event world0),
      w\<lparr>calls := calls w @ calls (snd (textEventHandler env event world0))\<rparr>)"
proof (cases "event_type event = ''message''")
  case False
  then show ?thesis
    by (simp add: textEventHandler_def world0_def)
next
  case True
  define D where "D = (\<lambda>g w1.
    case switch (message_type (message event)) (message_clauses env event) (initial_mail env g, w1) of
      Throw e (msg, w2) \<Rightarrow> (Inl e, w2)
    | Return (msg, w2) \<Rightarrow> (Inr (), w2)
    | Break (msg, w2) \<Rightarrow> send_mail env msg w2
    | Fall (msg, w2) \<Rightarrow> send_mail env msg w2)"
  have D: "D g w1 = (fst (D g world0), w1\<lparr>calls := calls w1 @ calls (snd (D g world0))\<rparr>)" for g w1
    unfolding D_def by (rule dispatch_frame)
  have T: "textEventHandler env event w1 =
      (case greeting env event w1 of (Inl e, w2) \<Rightarrow> (Inl e, w2) | (Inr g, w2) \<Rightarrow> D g w2)" for w1
    unfolding D_def using True by (simp add: textEventHandler_def)
  obtain gr gw where G0: "greeting env event world0 = (gr, gw)"
    by (cases "greeting env event world0")
  have G: "greeting env event w = (gr, w\<lparr>calls := calls w @ calls gw\<rparr>)"
    using greeting_frame [of env event w] G0 by simp
  show ?thesis
  proof (cases gr)
    case (Inl e)
    then show ?thesis by (simp add: T G G0)
  next
    case (Inr g)
    have "textEventHandler env event w = D g (w\<lparr>calls := calls w @ calls gw\<rparr>)"
      by (simp add: T G Inr)
    also have "\<dots> = (fst (D g world0), w\<lparr>calls := calls w @ calls gw @ calls (snd (D g world0))\<rparr>)"
      by (subst D) simp
    finally have L: "textEventHandler env event w =
      (fst (D g world0), w\<lparr>calls := calls w @ calls gw @ calls (snd (D g world0))\<rparr>)" .
    have "textEventHandler env event world0 = D g gw"
      by (simp add: T G0 Inr)
    also have "\<dots> = (fst (D g world0), gw\<lparr>calls := calls gw @ calls (snd (D g world0))\<rparr>)"
      by (subst D) simp
    finally have R: "textEventHandler env event world0 =
      (fst (D g world0), gw\<lparr>calls := calls gw @ calls (snd (D g world0))\<rparr>)" .
    show ?thesis by (simp add: L R)
  qed
qed

lemma greeting_responses:
  "responses (calls (snd (greeting env event w))) = responses (calls w)"
  by (simp add: greeting_def log_call_def responses_append split: option.splits sum.splits)

lemma dispatch_responses:
  "responses (calls (snd (case switch v (message_clauses env event) (m, w) of
      Throw e (msg, w2) \<Rightarrow> (Inl e, w2)
    | Return (msg, w2) \<Rightarrow> (Inr (), w2)
    | Break (msg, w2) \<Rightarrow> send_mail env msg w2
    | Fall (msg, w2) \<Rightarrow> send_mail env msg w2))) = responses (calls w)"
  by (simp add: message_switch attach_content_def getContent_def send_mail_def log_call_def
      append_line_def Let_def responses_append split: option.splits sum.splits)

lemma textEventHandler_responses:
  "responses (calls (snd (textEventHandler env event w))) = responses (calls w)"
proof (cases "event_type event = ''message''")
  case False
  then show ?thesis by (simp add: textEventHandler_def)
next
  case True
  obtain gr gw where G: "greeting env event w = (gr, gw)"
    by (cases "greeting env event w")
  have gw: "responses (calls gw) = responses (calls w)"
    using greeting_responses [of env event w] G by simp
  show ?thesis
  proof (cases gr)
    case (Inl e)
    then show ?thesis using True G gw by (simp add: textEventHandler_def)
  next
    case (Inr g)
    then show ?thesis
      using True G gw dispatch_responses [where v = "message_type (message event)" and env = env
          and event = event and m = "initial_mail env g" and w = gw]
      by (simp add: textEventHandler_def)
  qed
qed

subsection \<open>The batch\<close>

lemma res_json_new:
  "serialisable b \<Longrightarrow>
   res_json n b (new_response, w) = (Inr (), \<lparr>headersSent = True\<rparr>, log_call (Json n b) w)"
  by (simp add: res_json_def new_response_def)

lemma set_interleave: "set (interleave sched qs) = set (concat qs)"
proof (induction sched arbitrary: qs)
  case Nil
  show ?case by simp
next
  case (Cons i sched)
  show ?case
  proof (cases "i < length qs")
    case False
    then show ?thesis using Cons.IH by simp
  next
    case True
    show ?thesis
    proof (cases "qs ! i")
      case Nil
      then show ?thesis using True Cons.IH by simp
    next
      fix a as
      assume q: "qs ! i = a # as"
      have "qs = take i qs @ (a # as) # drop (Suc i) qs"
        using True q by (metis id_take_nth_drop)
      then have whole: "set (concat qs) =
          set (concat (take i qs)) \<union> insert a (set as) \<union> set (concat (drop (Suc i) qs))"
        by (metis concat.simps(2) concat_append list.simps(15) set_append sup_assoc)
      have "set (concat (qs[i := as])) =
          set (concat (take i qs)) \<union> set as \<union> set (concat (drop (Suc i) qs))"
        using True by (simp add: upd_conv_take_nth_drop Un_assoc)
      with whole have "insert a (set (concat (qs[i := as]))) = set (concat qs)"
        by blast
      then show ?thesis
        using True q Cons.IH [of "qs[i := as]"] by simp
    qed
  qed
qed

lemma set_first_actions:
  "set (concat (map (take 1) qs)) \<union> set (concat (map (drop 1) qs)) = set (concat qs)"
proof (induction qs)
  case Nil
  show ?case by simp
next
  case (Cons q qs)
  have "set (take 1 q) \<union> set (drop 1 q) = set q"
    by (metis append_take_drop_id set_append)
  with Cons show ?case by auto
qed

lemma set_order:
  "set (concat (map (take 1) qs) @ interleave sched (map (drop 1) qs)) = set (concat qs)"
  using set_first_actions [of qs] by (simp add: set_interleave)

lemma fold_perform:
  assumes "\<forall>c. Issue c \<in> set as \<longrightarrow> responses [c] = []"
    and "fold perform as (rej, res, w) = (rej', res', w')"
  shows "headersSent res' = (headersSent res \<or> Catch \<in> set as) \<and>
    responses (calls w') = responses (calls w) @
      (if \<not> headersSent res \<and> Catch \<in> set as then [(500::nat, Status ''error'')] else []) \<and>
    (Catch \<notin> set as \<longrightarrow> rej' = rej)"
  using assms
proof (induction as arbitrary: rej res w)
  case Nil
  then show ?case by simp
next
  case (Cons a as)
  show ?case
  proof (cases a)
    case (Issue c)
    with Cons.prems have no: "responses [c] = []" and
      rest: "fold perform as (rej, res, log_call c w) = (rej', res', w')"
      by simp_all
    from Cons.IH [OF _ rest] Cons.prems(1) no Issue show ?thesis
      by (simp add: log_call_def responses_append)
  next
    case Catch
    show ?thesis
    proof (cases "headersSent res")
      case True
      with Cons.prems Catch have
        rest: "fold perform as (case rej of None \<Rightarrow> Some ERR_HTTP_HEADERS_SENT | Some e0 \<Rightarrow> Some e0, res, w)
                 = (rej', res', w')"
        by (simp add: res_json_def)
      from Cons.IH [OF _ rest] Cons.prems(1) True Catch show ?thesis
        by simp
    next
      case False
      with Cons.prems Catch have
        rest: "fold perform as (rej, res\<lparr>headersSent := True\<rparr>, log_call (Json 500 (Status ''error'')) w)
                 = (rej', res', w')"
        by (simp add: res_json_def)
      from Cons.IH [OF _ rest] Cons.prems(1) False Catch show ?thesis
        by (simp add: log_call_def responses_append)
    qed
  qed
qed

lemma responses_member: "responses cs = [] \<Longrightarrow> c \<in> set cs \<Longrightarrow> responses [c] = []"
  by (induction cs rule: responses.induct) auto

lemma event_callback_Issue:
  assumes "Issue c \<in> set (event_callback env ev)"
  shows "responses [c] = []"
proof -
  obtain r w where t: "textEventHandler env ev world0 = (r, w)"
    by (cases "textEventHandler env ev world0")
  have "responses (calls w) = []"
    using textEventHandler_responses [of env ev world0] t by (simp add: world0_def)
  moreover have "c \<in> set (calls w)"
    using assms t by (cases r) (auto simp: event_callback_def)
  ultimately show ?thesis by (rule responses_member)
qed

lemma event_callback_Catch:
  "Catch \<in> set (event_callback env ev) = isl (fst (textEventHandler env ev world0))"
proof -
  obtain r w where t: "textEventHandler env ev world0 = (r, w)"
    by (cases "textEventHandler env ev world0")
  show ?thesis
    using t by (cases r) (auto simp: event_callback_def)
qed

lemma callbacks_Catch:
  "Catch \<in> set (concat (map (event_callback env) events)) =
   (\<not> list_all (\<lambda>ev. \<not> isl (fst (textEventHandler env ev world0))) events)"
  by (auto simp: list_all_iff event_callback_Catch)

lemma callbacks_Issue:
  "Issue c \<in> set (concat (map (event_callback env) events)) \<Longrightarrow> responses [c] = []"
  by (auto dest: event_callback_Issue)

lemma callbacks_slots:
  "list_all (\<lambda>ev. \<not> isl (fst (textEventHandler env ev world0))) events \<Longrightarrow>
   map (\<lambda>actions. if Catch \<in> set actions then Res else Undefined) (map (event_callback env) events) =
     replicate (length events) Undefined"
  by (induction events) (simp_all add: event_callback_Catch)

lemma promise_all_map_result:
  assumes "promise_all_map env events sched (new_response, w) = (r, res', w')"
  shows "headersSent res' = (\<not> list_all (\<lambda>ev. \<not> isl (fst (textEventHandler env ev world0))) events) \<and>
    responses (calls w') = responses (calls w) @
      (if list_all (\<lambda>ev. \<not> isl (fst (textEventHandler env ev world0))) events then []
       else [(500::nat, Status ''error'')]) \<and>
    (list_all (\<lambda>ev. \<not> isl (fst (textEventHandler env ev world0))) events \<longrightarrow>
       r = Inr (replicate (length events) Undefined))"
proof -
  let ?qs = "map (event_callback env) events"
  let ?order = "concat (map (take 1) ?qs) @ interleave sched (map (drop 1) ?qs)"
  obtain rej fres fw where f: "fold perform ?order (None, new_response, w) = (rej, fres, fw)"
    by (cases "fold perform ?order (None, new_response, w)")
  have set: "set ?order = set (concat ?qs)"
    by (rule set_order)
  have issue: "\<forall>c. Issue c \<in> set ?order \<longrightarrow> responses [c] = []"
    unfolding set using callbacks_Issue by blast
  have catch: "Catch \<in> set ?order =
      (\<not> list_all (\<lambda>ev. \<not> isl (fst (textEventHandler env ev world0))) events)"
    unfolding set by (rule callbacks_Catch)
  note fp = fold_perform [OF issue f]
  have pm: "promise_all_map env events sched (new_response, w) =
      (case rej of
         Some e \<Rightarrow> (Inl e, fres, fw)
       | None \<Rightarrow> (Inr (map (\<lambda>actions. if Catch \<in> set actions then Res else Undefined) ?qs),
                   fres, fw))"
    by (simp only: promise_all_map_def Let_def prod.case f)
  have res: "res' = fres" and w: "w' = fw"
    using assms pm by (cases rej; simp)+
  have r: "list_all (\<lambda>ev. \<not> isl (fst (textEventHandler env ev world0))) events \<Longrightarrow>
      r = Inr (replicate (length events) Undefined)"
  proof -
    assume ok: "list_all (\<lambda>ev. \<not> isl (fst (textEventHandler env ev world0))) events"
    with fp catch have "rej = None" by simp
    with assms pm callbacks_slots [OF ok] show ?thesis
      by simp
  qed
  from fp catch res w r show ?thesis
    by (simp add: new_response_def)
qed

text \<open>
  The emails of a batch: whatever the order in which the callbacks are resumed, and
  whether or not the handler ends with an error, the emails sent are those that each
  event's handler sends on its own.
\<close>

lemma issued_append: "issued (xs @ ys) = issued xs @ issued ys"
  by (induction xs rule: issued.induct) simp_all

lemma sent_issued_Cons: "sent (issued (a # as)) = sent (issued [a]) @ sent (issued as)"
  using issued_append [of "[a]" as] by (simp add: sent_append)

lemma sent_Cons: "sent (c # cs) = sent [c] @ sent cs"
  using sent_append [of "[c]" cs] by simp

lemma issued_map_Issue: "issued (map Issue cs) = cs"
  by (induction cs) simp_all

lemma issued_event_callback:
  "issued (event_callback env ev) = calls (snd (textEventHandler env ev world0))"
proof -
  obtain r w where t: "textEventHandler env ev world0 = (r, w)"
    by (cases "textEventHandler env ev world0")
  show ?thesis
    using t by (cases r) (simp_all add: event_callback_def issued_append issued_map_Issue)
qed

lemma mset_interleave:
  "mset (sent (issued (interleave sched qs))) = mset (sent (issued (concat qs)))"
proof (induction sched arbitrary: qs)
  case Nil
  show ?case by simp
next
  case (Cons i sched)
  show ?case
  proof (cases "i < length qs")
    case False
    then show ?thesis using Cons.IH by simp
  next
    case True
    show ?thesis
    proof (cases "qs ! i")
      case Nil
      then show ?thesis using True Cons.IH by simp
    next
      fix a as
      assume q: "qs ! i = a # as"
      have "qs = take i qs @ (a # as) # drop (Suc i) qs"
        using True q by (metis id_take_nth_drop)
      then have "concat qs = concat (take i qs) @ ([a] @ as) @ concat (drop (Suc i) qs)"
        by (metis append_Cons append_Nil concat.simps(2) concat_append)
      then have whole: "mset (sent (issued (concat qs))) =
          mset (sent (issued [a])) + mset (sent (issued (concat (take i qs) @ as @ concat (drop (Suc i) qs))))"
        by (simp add: issued_append sent_append sent_issued_Cons [of a "as @ concat (drop (Suc i) qs)"])
      have "concat (qs[i := as]) = concat (take i qs) @ as @ concat (drop (Suc i) qs)"
        using True by (simp add: upd_conv_take_nth_drop)
      with whole have "mset (sent (issued (concat qs))) =
          mset (sent (issued [a])) + mset (sent (issued (concat (qs[i := as]))))"
        by simp
      moreover have "mset (sent (issued (a # interleave sched (qs[i := as])))) =
          mset (sent (issued [a])) + mset (sent (issued (interleave sched (qs[i := as]))))"
        by (simp add: sent_issued_Cons [of a "interleave sched (qs[i := as])"])
      ultimately show ?thesis
        using True q Cons.IH [of "qs[i := as]"] by simp
    qed
  qed
qed

lemma mset_first_actions:
  "mset (sent (issued (concat (map (take 1) qs)))) + mset (sent (issued (concat (map (drop 1) qs)))) =
   mset (sent (issued (concat qs)))"
proof (induction qs)
  case Nil
  show ?case by simp
next
  case (Cons q qs)
  have "sent (issued (take 1 q)) @ sent (issued (drop 1 q)) = sent (issued q)"
    by (metis append_take_drop_id issued_append sent_append)
  then have "mset (sent (issued (take 1 q))) + mset (sent (issued (drop 1 q))) = mset (sent (issued q))"
    by (metis mset_append)
  with Cons show ?case
    by (simp add: issued_append sent_append ac_simps)
qed

lemma fold_perform_sent:
  "fold perform as (rej, res, w) = (rej', res', w') \<Longrightarrow>
   sent (calls w') = sent (calls w) @ sent (issued as)"
proof (induction as arbitrary: rej res w)
  case Nil
  then show ?case by simp
next
  case (Cons a as)
  show ?case
  proof (cases a)
    case (Issue c)
    with Cons.prems have "fold perform as (rej, res, log_call c w) = (rej', res', w')"
      by simp
    from Cons.IH [OF this] Issue show ?thesis
      by (simp add: log_call_def sent_append sent_Cons [of c "issued as"])
  next
    case Catch
    obtain rej1 res1 w1 where p: "perform Catch (rej, res, w) = (rej1, res1, w1)"
      by (cases "perform Catch (rej, res, w)")
    then have w1: "sent (calls w1) = sent (calls w)"
      by (auto simp: res_json_def log_call_def sent_append split: if_splits)
    from Cons.prems Catch p have "fold perform as (rej1, res1, w1) = (rej', res', w')"
      by simp
    from Cons.IH [OF this] w1 Catch show ?thesis
      by simp
  qed
qed

lemma batch_emails:
  "mset (sent (calls (snd (webhook_handler env events sched w)))) =
   mset (sent (calls w)) +
   mset (concat (map (\<lambda>ev. sent (calls (snd (textEventHandler env ev world0)))) events))"
proof -
  let ?qs = "map (event_callback env) events"
  let ?order = "concat (map (take 1) ?qs) @ interleave sched (map (drop 1) ?qs)"
  obtain rej fres fw where f: "fold perform ?order (None, new_response, w) = (rej, fres, fw)"
    by (cases "fold perform ?order (None, new_response, w)")
  have pm: "promise_all_map env events sched (new_response, w) =
      (case rej of
         Some e \<Rightarrow> (Inl e, fres, fw)
       | None \<Rightarrow> (Inr (map (\<lambda>actions. if Catch \<in> set actions then Res else Undefined) ?qs),
                   fres, fw))"
    by (simp only: promise_all_map_def Let_def prod.case f)
  have "sent (calls (snd (webhook_handler env events sched w))) = sent (calls fw)"
    using pm
    by (cases rej) (simp_all add: webhook_handler_def res_json_def log_call_def sent_append)
  also have "\<dots> = sent (calls w) @ sent (issued ?order)"
    by (rule fold_perform_sent [OF f])
  finally have "mset (sent (calls (snd (webhook_handler env events sched w)))) =
      mset (sent (calls w)) + mset (sent (issued ?order))"
    by simp
  moreover have "mset (sent (issued ?order)) = mset (sent (issued (concat ?qs)))"
    using mset_first_actions [of ?qs] mset_interleave [of sched "map (drop 1) ?qs"]
    by (simp add: issued_append sent_append)
  moreover have "sent (issued (concat ?qs)) =
      concat (map (\<lambda>ev. sent (calls (snd (textEventHandler env ev world0)))) events)"
    by (induction events) (simp_all add: issued_append sent_append issued_event_callback)
  ultimately show ?thesis by simp
qed

lemma media_event_email:
  assumes "event_type event = ''message''"
    and "message_type (message event) \<in> {''image'', ''video'', ''audio'', ''file''}"
    and "greeting env event w = (Inr g, w1)"
    and "getContent env (message_id (message event)) w1 = (Inr c, w2)"
  shows "textEventHandler env event w =
     send_mail env
       ((initial_mail env g)\<lparr>attachments :=
            Some [\<lparr>content = toString_base64 env (file_buffer c), attachment_type = fileType c,
                   filename = fileExtname c\<rparr>],
          mail_text := g @ ''\<newline>\<newline>'' @ lit_image\<rparr>) w2"
  using assms
  by (auto simp: textEventHandler_def message_switch attach_content_def append_line_def
      initial_mail_def)

subsection \<open>Facts about the sample configuration\<close>

lemma env0_facts:
  "save env0 k b = None" "makePublic env0 k = None" "pushMessage env0 g m = None"
  "groupId env0 = ''G1''" "publicUrl env0 k = ''https://storage.example/'' @ k"
  "uuidv4 env0 0 = ''id0''" "middleware env0 evs = None" "sgMail_send env0 ml = None"
  by (simp_all add: env0_def)

lemma world0_facts: "calls world0 = []" "uuids_drawn world0 = 0"
  by (simp_all add: world0_def)

lemma text_event_callback:
  "event_callback env0 text_event =
     [Issue (GetProfile ''U1''),
      Issue (Send \<lparr>mail_to = [''to@example.com''],
        mail_from = \<lparr>email = ''line@line-to-email.futa.io'', name = ''line-to-email''\<rparr>,
        subject = lit_subject,
        mail_text = ''Alice'' @ lit_san @ lit_kara_no_message @ ''\<newline>\<newline>hello'',
        attachments = None\<rparr>)]"
proof -
  have "textEventHandler env0 text_event world0 =
      send_mail env0 \<lparr>mail_to = [''to@example.com''],
       mail_from = \<lparr>email = ''line@line-to-email.futa.io'', name = ''line-to-email''\<rparr>,
       subject = lit_subject,
       mail_text = ''Alice'' @ lit_san @ lit_kara_no_message @ ''\<newline>\<newline>hello'',
       attachments = None\<rparr> (log_call (GetProfile ''U1'') world0)"
    by (simp add: textEventHandler_def text_event_def greeting_def env0_def message_switch
        append_line_def initial_mail_def)
  then show ?thesis
    by (simp add: event_callback_def send_mail_def env0_facts log_call_def world0_facts)
qed

lemma location_event_callback:
  "event_callback env0 location_event = [Issue (GetProfile ''U2''), Catch]"
proof -
  have "textEventHandler env0 location_event world0 =
      (Inl (Error ''profile''), log_call (GetProfile ''U2'') world0)"
    by (simp add: textEventHandler_def location_event_def greeting_def env0_def)
  then show ?thesis
    by (simp add: event_callback_def log_call_def world0_facts)
qed

lemma sticker_event_callback:
  "event_callback env0 sticker_event =
     [Issue (Send \<lparr>mail_to = [''to@example.com''],
        mail_from = \<lparr>email = ''line@line-to-email.futa.io'', name = ''line-to-email''\<rparr>,
        subject = lit_subject,
        mail_text = lit_user @ lit_kara_no_message @ ''\<newline>\<newline>'' @ lit_sticker,
        attachments = None\<rparr>)]"
proof -
  have "textEventHandler env0 sticker_event world0 =
      send_mail env0 \<lparr>mail_to = [''to@example.com''],
       mail_from = \<lparr>email = ''line@line-to-email.futa.io'', name = ''line-to-email''\<rparr>,
       subject = lit_subject,
       mail_text = lit_user @ lit_kara_no_message @ ''\<newline>\<newline>'' @ lit_sticker,
       attachments = None\<rparr> world0"
    by (simp add: textEventHandler_def sticker_event_def greeting_def env0_def message_switch
        append_line_def initial_mail_def)
  then show ?thesis
    by (simp add: event_callback_def send_mail_def env0_facts log_call_def world0_facts)
qed

section \<open>Chat to email: the claims\<close>

text \<open>
  C5. For a message event of kind \<^verbatim>\<open>text\<close> the handler sends one email without
  attachment whose body is the greeting line, a blank line and the message text. The
  greeting names the user by the display name of the fetched profile when the event
  carries a user id (one that is not the empty string), and is the generic one
  otherwise. When the profile fetch fails, no email is sent.
\<close>

theorem text_event_email:
  assumes "event_type event = ''message''"
    and "message_type (message event) = ''text''"
  shows "sent (calls (snd (textEventHandler env event w))) = sent (calls w) @
     map (\<lambda>g. \<lparr>mail_to = toEmailArray env,
                mail_from = \<lparr>email = ''line@line-to-email.futa.io'', name = ''line-to-email''\<rparr>,
                subject = lit_subject,
                mail_text = g @ ''\<newline>\<newline>'' @ message_text (message event),
                attachments = None\<rparr>)
       (case userId (source event) of
          None \<Rightarrow> [lit_user @ lit_kara_no_message]
        | Some u \<Rightarrow>
            if u = [] then [lit_user @ lit_kara_no_message]
            else (case getProfile env u of
                    Inl e \<Rightarrow> []
                  | Inr p \<Rightarrow> [displayName p @ lit_san @ lit_kara_no_message]))"
  using assms
  by (simp add: textEventHandler_def greeting_def message_switch
      send_mail_def log_call_def append_line_def initial_mail_def sent_append
      split: option.splits sum.splits)

theorem text_event_email_witness:
  "event_type text_event = ''message'' \<and> message_type (message text_event) = ''text'' \<and>
   sent (calls (snd (textEventHandler env0 text_event world0))) =
     [\<lparr>mail_to = [''to@example.com''],
       mail_from = \<lparr>email = ''line@line-to-email.futa.io'', name = ''line-to-email''\<rparr>,
       subject = lit_subject,
       mail_text = ''Alice'' @ lit_san @ lit_kara_no_message @ ''\<newline>\<newline>hello'',
       attachments = None\<rparr>]"
proof -
  have h1: "event_type text_event = ''message''"
    by (simp add: text_event_def)
  have h2: "message_type (message text_event) = ''text''"
    by (simp add: text_event_def)
  show ?thesis
    using h1 h2 text_event_email [OF h1 h2, of env0 world0]
    by (simp add: text_event_def env0_def world0_def)
qed

text \<open>
  C1. A video message from the user \<^verbatim>\<open>U1\<close>: the email carries the one attachment
  with the encoded content, and its body ends with the label of an image message, not
  with the label of a video message.
\<close>

theorem video_event_label:
  "sent (calls (snd (textEventHandler env0 video_event world0))) =
     [\<lparr>mail_to = [''to@example.com''],
       mail_from = \<lparr>email = ''line@line-to-email.futa.io'', name = ''line-to-email''\<rparr>,
       subject = lit_subject,
       mail_text = ''Alice'' @ lit_san @ lit_kara_no_message @ ''\<newline>\<newline>'' @ lit_image,
       attachments = Some [\<lparr>content = ''YWJj'', attachment_type = ''video/mp4'', filename = ''mp4''\<rparr>]\<rparr>]
   \<and> \<not> suffix lit_video (''Alice'' @ lit_san @ lit_kara_no_message @ ''\<newline>\<newline>'' @ lit_image)"
proof -
  have "textEventHandler env0 video_event world0 =
     send_mail env0 \<lparr>mail_to = [''to@example.com''],
       mail_from = \<lparr>email = ''line@line-to-email.futa.io'', name = ''line-to-email''\<rparr>,
       subject = lit_subject,
       mail_text = ''Alice'' @ lit_san @ lit_kara_no_message @ ''\<newline>\<newline>'' @ lit_image,
       attachments = Some [\<lparr>content = ''YWJj'', attachment_type = ''video/mp4'', filename = ''mp4''\<rparr>]\<rparr>
       (log_call (Fetch ''https://api-data.line.me/v2/bot/message/2/content'' ''Bearer token'')
          (log_call (GetProfile ''U1'') world0))"
    by (simp add: textEventHandler_def video_event_def greeting_def env0_def message_switch
        attach_content_def getContent_def Let_def template_def or_empty_def append_line_def
        initial_mail_def)
  moreover have "\<not> suffix lit_video (''Alice'' @ lit_san @ lit_kara_no_message @ ''\<newline>\<newline>'' @ lit_image)"
    by (simp add: suffix_to_prefix lit_video_def lit_image_def lit_san_def lit_kara_no_message_def)
  ultimately show ?thesis
    by (simp add: send_mail_def env0_def log_call_def world0_def)
qed

text \<open>
  C4. A batch of three events of which the second fails at its profile fetch, with the
  failed fetch answered before the successful one: the emails of the first and the
  third event are sent, the sticker's first, and the catch block answers 500; then the
  handler ends with an error, because the results it serialises for the final response
  hold the response object.
\<close>

theorem failed_event_rejects_batch:
  "webhook_handler env0 [text_event, location_event, sticker_event] [1, 0] world0 =
     (Inl TypeError_circular_structure,
      \<lparr>calls =
         [GetProfile ''U1'',
          GetProfile ''U2'',
          Send \<lparr>mail_to = [''to@example.com''],
            mail_from = \<lparr>email = ''line@line-to-email.futa.io'', name = ''line-to-email''\<rparr>,
            subject = lit_subject,
            mail_text = lit_user @ lit_kara_no_message @ ''\<newline>\<newline>'' @ lit_sticker,
            attachments = None\<rparr>,
          Json 500 (Status ''error''),
          Send \<lparr>mail_to = [''to@example.com''],
            mail_from = \<lparr>email = ''line@line-to-email.futa.io'', name = ''line-to-email''\<rparr>,
            subject = lit_subject,
            mail_text = ''Alice'' @ lit_san @ lit_kara_no_message @ ''\<newline>\<newline>hello'',
            attachments = None\<rparr>],
       uuids_drawn = 0\<rparr>)"
  by (simp add: webhook_handler_def promise_all_map_def text_event_callback
      location_event_callback sticker_event_callback res_json_def new_response_def
      log_call_def world0_def)

text \<open>With two failing events the second catch block throws, and the handler with it.\<close>

lemma two_failed_events_reject_batch:
  "webhook_handler env0 [location_event, location_event] [] world0 =
     (Inl ERR_HTTP_HEADERS_SENT,
      \<lparr>calls = [GetProfile ''U2'', GetProfile ''U2'', Json 500 (Status ''error'')],
       uuids_drawn = 0\<rparr>)"
  by (simp add: webhook_handler_def promise_all_map_def location_event_callback res_json_def
      new_response_def log_call_def world0_def)

text \<open>
  C10. For a message event that carries a user id, the first call the handler makes is
  the profile fetch. When the message kind is none of the six handled ones, that fetch
  is the only call: no email is sent, and the handler's outcome is the failure of the
  fetch when it fails. A failed fetch is the event's error for every kind.
\<close>

theorem profile_fetch_before_dispatch:
  assumes "event_type event = ''message''"
    and "userId (source event) = Some u" and "u \<noteq> []"
  shows "(\<exists>rest. calls (snd (textEventHandler env event w)) = calls w @ GetProfile u # rest) \<and>
     (message_type (message event) \<notin> {''text'', ''image'', ''video'', ''audio'', ''file'', ''sticker''} \<longrightarrow>
        textEventHandler env event w =
          ((case getProfile env u of Inl e \<Rightarrow> Inl e | Inr p \<Rightarrow> Inr ()), log_call (GetProfile u) w)) \<and>
     (\<forall>e. getProfile env u = Inl e \<longrightarrow>
        textEventHandler env event w = (Inl e, log_call (GetProfile u) w))"
proof (intro conjI impI allI)
  show "\<exists>rest. calls (snd (textEventHandler env event w)) = calls w @ GetProfile u # rest"
  proof (cases "getProfile env u")
    case (Inl e)
    then have "textEventHandler env event w = (Inl e, log_call (GetProfile u) w)"
      using assms by (simp add: textEventHandler_def greeting_def)
    then show ?thesis by (simp add: log_call_def)
  next
    case (Inr p)
    define D where "D = (\<lambda>w1.
      case switch (message_type (message event)) (message_clauses env event)
             (initial_mail env (displayName p @ lit_san @ lit_kara_no_message), w1) of
        Throw e (msg, w2) \<Rightarrow> (Inl e, w2)
      | Return (msg, w2) \<Rightarrow> (Inr (), w2)
      | Break (msg, w2) \<Rightarrow> send_mail env msg w2
      | Fall (msg, w2) \<Rightarrow> send_mail env msg w2)"
    have D: "D w1 = (fst (D world0), w1\<lparr>calls := calls w1 @ calls (snd (D world0))\<rparr>)" for w1
      unfolding D_def by (rule dispatch_frame)
    have "textEventHandler env event w = D (log_call (GetProfile u) w)"
      unfolding D_def using assms Inr by (simp add: textEventHandler_def greeting_def)
    then have "calls (snd (textEventHandler env event w)) =
        calls w @ GetProfile u # calls (snd (D world0))"
      by (subst (asm) D) (simp add: log_call_def)
    then show ?thesis by blast
  qed
next
  assume "message_type (message event) \<notin> {''text'', ''image'', ''video'', ''audio'', ''file'', ''sticker''}"
  then show "textEventHandler env event w =
      ((case getProfile env u of Inl e \<Rightarrow> Inl e | Inr p \<Rightarrow> Inr ()), log_call (GetProfile u) w)"
    using assms by (simp add: textEventHandler_def greeting_def message_switch split: sum.splits)
next
  fix e assume "getProfile env u = Inl e"
  then show "textEventHandler env event w = (Inl e, log_call (GetProfile u) w)"
    using assms by (simp add: textEventHandler_def greeting_def)
qed

theorem profile_fetch_before_dispatch_witness:
  "event_type location_event = ''message'' \<and> userId (source location_event) = Some ''U2'' \<and>
   message_type (message location_event) = ''location'' \<and>
   getProfile env0 ''U2'' = Inl (Error ''profile'') \<and>
   textEventHandler env0 location_event world0 =
     (Inl (Error ''profile''), \<lparr>calls = [GetProfile ''U2''], uuids_drawn = 0\<rparr>)"
proof -
  have h1: "event_type location_event = ''message''"
    by (simp add: location_event_def)
  have h2: "userId (source location_event) = Some ''U2''"
    by (simp add: location_event_def)
  have h3: "''U2'' \<noteq> []"
    by simp
  have h4: "getProfile env0 ''U2'' = Inl (Error ''profile'')"
    by (simp add: env0_def)
  have h5: "message_type (message location_event) = ''location''"
    by (simp add: location_event_def)
  show ?thesis
    using h1 h2 h4 h5 profile_fetch_before_dispatch [OF h1 h2 h3, of env0 world0]
    by (simp add: log_call_def world0_def)
qed

subsection \<open>The responses of the webhook route\<close>

text \<open>
  C2, as the code has it. For a batch that passes the signature middleware, in whatever
  order the callbacks are resumed: when no event's handler throws, the one response
  sent is a 200 whose results array has one slot per event; when some event's handler
  throws, the first response is the 500 of the catch block. An event's outcome does
  not depend on the log (\<open>textEventHandler_frame\<close>), so it is read off a run from the
  empty log.
\<close>

theorem webhook_response:
  assumes "middleware env events = None"
  shows "\<exists>rs. responses (calls (snd (post_webhook env events sched w))) = responses (calls w) @ rs \<and>
     (if list_all (\<lambda>ev. \<not> isl (fst (textEventHandler env ev world0))) events
      then rs = [(200, StatusResults ''success'' (replicate (length events) Undefined))]
      else hd rs = (500, Status ''error''))"
proof -
  obtain r res' w' where p: "promise_all_map env events sched (new_response, w) = (r, res', w')"
    by (cases "promise_all_map env events sched (new_response, w)")
  note pr = promise_all_map_result [OF p]
  show ?thesis
  proof (cases "list_all (\<lambda>ev. \<not> isl (fst (textEventHandler env ev world0))) events")
    case True
    with pr have "r = Inr (replicate (length events) Undefined)" "\<not> headersSent res'"
      "responses (calls w') = responses (calls w)"
      by simp_all
    then show ?thesis
      using assms p True
      by (simp add: post_webhook_def webhook_handler_def res_json_def log_call_def
          responses_append)
  next
    case False
    with pr have sent: "headersSent res'" and
      rs: "responses (calls w') = responses (calls w) @ [(500, Status ''error'')]"
      by simp_all
    have "snd (post_webhook env events sched w) = w'"
      using assms p sent
      by (cases r) (simp_all add: post_webhook_def webhook_handler_def res_json_def)
    with rs False show ?thesis by simp
  qed
qed

theorem webhook_response_witness:
  "middleware env0 [text_event, sticker_event] = None \<and>
   responses (calls (snd (post_webhook env0 [text_event, sticker_event] [0] world0))) =
     [(200, StatusResults ''success'' [Undefined, Undefined])]"
proof -
  have t1: "fst (textEventHandler env0 text_event world0) = Inr ()"
    by (simp add: textEventHandler_def text_event_def greeting_def env0_def message_switch
        append_line_def send_mail_def)
  have t3: "fst (textEventHandler env0 sticker_event world0) = Inr ()"
    by (simp add: textEventHandler_def sticker_event_def greeting_def env0_def message_switch
        append_line_def send_mail_def)
  have m: "middleware env0 [text_event, sticker_event] = None"
    by (simp add: env0_def)
  show ?thesis
    using m webhook_response [OF m, of "[0]" world0]
    by (auto simp: t1 t3 world0_facts)
qed

text \<open>
  C2, as stated, fails on a batch of one event whose profile fetch is rejected: the
  response sent is the 500 of the catch block, and the write of the 200 throws.
\<close>

theorem failed_event_written_500:
  "middleware env0 [location_event] = None \<and>
   responses (calls (snd (post_webhook env0 [location_event] [] world0))) =
     [(500, Status ''error'')] \<and>
   fst (post_webhook env0 [location_event] [] world0) = Inl TypeError_circular_structure"
  by (simp add: env0_facts post_webhook_def webhook_handler_def promise_all_map_def
      location_event_callback res_json_def new_response_def log_call_def world0_def)

section \<open>Form to chat: lemmas\<close>

lemma upload_file_Inr:
  assumes "upload_file env f w = (Inr url, w')"
  shows "save env (object_key env (uuids_drawn w) (originalname f)) (buffer f) = None \<and>
    makePublic env (object_key env (uuids_drawn w) (originalname f)) = None \<and>
    url = publicUrl env (object_key env (uuids_drawn w) (originalname f)) \<and>
    w' = \<lparr>calls = calls w @ [Save (object_key env (uuids_drawn w) (originalname f)) (buffer f),
                               MakePublic (object_key env (uuids_drawn w) (originalname f))],
          uuids_drawn = Suc (uuids_drawn w)\<rparr>"
  using assms
  by (auto simp: upload_file_def Let_def log_call_def split: option.splits)

lemma upload_file_ok:
  assumes "save env (object_key env (uuids_drawn w) (originalname f)) (buffer f) = None"
    and "makePublic env (object_key env (uuids_drawn w) (originalname f)) = None"
  shows "upload_file env f w =
    (Inr (publicUrl env (object_key env (uuids_drawn w) (originalname f))),
     \<lparr>calls = calls w @ [Save (object_key env (uuids_drawn w) (originalname f)) (buffer f),
                        MakePublic (object_key env (uuids_drawn w) (originalname f))],
      uuids_drawn = Suc (uuids_drawn w)\<rparr>)"
  using assms
  by (simp add: upload_file_def Let_def log_call_def)

lemma file_step_Inr:
  assumes "file_step env f ma w = (Inr ma', w')"
  shows "(\<exists>xs. ma' = ma @ xs) \<and>
    w' = \<lparr>calls = calls w @ [Save (object_key env (uuids_drawn w) (originalname f)) (buffer f),
                               MakePublic (object_key env (uuids_drawn w) (originalname f))],
          uuids_drawn = Suc (uuids_drawn w)\<rparr>"
proof -
  from assms obtain r where r: "fromBuffer env (buffer f) = Inr r"
    by (cases "fromBuffer env (buffer f)") (simp_all add: file_step_def)
  obtain u w1 where u: "upload_file env f w = (u, w1)"
    by (cases "upload_file env f w")
  with assms r obtain url where url: "u = Inr url"
    by (cases u) (simp_all add: file_step_def)
  note up = upload_file_Inr [OF u [unfolded url]]
  from assms r u url show ?thesis
    using up
    by (auto simp: file_step_def file_switch push_image_def push_video_def push_audio_def
        split: if_splits sum.splits)
qed

lemma for_files_append:
  "for_files env (xs @ ys) ma w =
     (case for_files env xs ma w of
        (Inl e, w') \<Rightarrow> (Inl e, w')
      | (Inr ma', w') \<Rightarrow> for_files env ys ma' w')"
  by (induction xs arbitrary: ma w) (auto split: prod.splits sum.splits)

lemma for_files_Inr:
  "for_files env fs ma w = (Inr ma', w') \<Longrightarrow>
   (\<exists>xs. ma' = ma @ xs) \<and>
   calls w' = calls w @ concat (map (\<lambda>(n, f).
       [Save (object_key env n (originalname f)) (buffer f),
        MakePublic (object_key env n (originalname f))]) (enumerate (uuids_drawn w) fs)) \<and>
   uuids_drawn w' = uuids_drawn w + length fs"
proof (induction fs arbitrary: ma w)
  case Nil
  then show ?case by simp
next
  case (Cons f fs)
  from Cons.prems obtain ma1 w1 where
    s: "file_step env f ma w = (Inr ma1, w1)" and r: "for_files env fs ma1 w1 = (Inr ma', w')"
    by (auto split: prod.splits sum.splits)
  from file_step_Inr [OF s] Cons.IH [OF r] show ?case
    by auto
qed

lemma for_files_pushed:
  assumes "for_files env fs ma w = (Inr ma', w')"
  shows "pushed (calls w') = pushed (calls w)"
proof -
  have "pushed (concat (map (\<lambda>(n, f). [Save (object_key env n (originalname f)) (buffer f),
                             MakePublic (object_key env n (originalname f))]) xs)) = []" for xs
    by (induction xs) auto
  then show ?thesis
    using for_files_Inr [OF assms] by (simp add: pushed_append)
qed

lemma push_all_single:
  "push_all env [m] w =
     ((case pushMessage env (groupId env) m of Some e \<Rightarrow> Inl e | None \<Rightarrow> Inr ()),
      log_call (PushMessage (groupId env) m) w)"
  by (simp split: option.splits)

lemma push_all_calls:
  "\<exists>cs. calls (snd (push_all env ms w)) = calls w @ cs \<and> stored cs = [] \<and>
     pushed cs = take (length (pushed cs)) (map (Pair (groupId env)) ms) \<and>
     (ms \<noteq> [] \<longrightarrow> cs \<noteq> [] \<and> hd cs = PushMessage (groupId env) (hd ms)) \<and>
     uuids_drawn (snd (push_all env ms w)) = uuids_drawn w"
proof (induction ms arbitrary: w)
  case Nil
  show ?case by simp
next
  case (Cons m ms)
  show ?case
  proof (cases "pushMessage env (groupId env) m")
    case None
    from Cons.IH [of "log_call (PushMessage (groupId env) m) w"]
    obtain cs where cs: "calls (snd (push_all env ms (log_call (PushMessage (groupId env) m) w))) =
        calls (log_call (PushMessage (groupId env) m) w) @ cs" "stored cs = []"
        "pushed cs = take (length (pushed cs)) (map (Pair (groupId env)) ms)"
        "uuids_drawn (snd (push_all env ms (log_call (PushMessage (groupId env) m) w))) =
           uuids_drawn (log_call (PushMessage (groupId env) m) w)"
      by blast
    show ?thesis
      apply (rule exI [of _ "PushMessage (groupId env) m # cs"])
      using None cs by (simp add: log_call_def)
  next
    case (Some e)
    show ?thesis
      apply (rule exI [of _ "[PushMessage (groupId env) m]"])
      using Some by (simp add: log_call_def)
  qed
qed

lemma push_all_stored:
  "stored (calls (snd (push_all env ms w))) = stored (calls w)"
  using push_all_calls [of env ms w] by (auto simp: stored_append)

lemma push_all_first:
  "\<exists>rest. pushed (calls (snd (push_all env (m # ms) w))) =
     pushed (calls w) @ (groupId env, m) # rest"
proof -
  from push_all_calls [of env "m # ms" w] obtain cs where
    cs: "calls (snd (push_all env (m # ms) w)) = calls w @ cs" "cs \<noteq> []"
      "hd cs = PushMessage (groupId env) m"
    by auto
  then obtain cs' where "cs = PushMessage (groupId env) m # cs'"
    by (cases cs) auto
  with cs show ?thesis
    by (simp add: pushed_append)
qed

lemma mixed_files_run:
  "for_files env0 [\<lparr>buffer = ''PDF'', originalname = ''d.pdf''\<rparr>,
                   \<lparr>buffer = ''plain'', originalname = ''n.txt''\<rparr>,
                   \<lparr>buffer = ''JPEG'', originalname = ''p.jpg''\<rparr>] [first_message mixed_request] world0 =
     (Inr [first_message mixed_request,
           ImageMessage ''https://storage.example/line-to-email/id2-p.jpg''
                        ''https://storage.example/line-to-email/id2-p.jpg''],
      \<lparr>calls = [Save ''line-to-email/id0-d.pdf'' ''PDF'', MakePublic ''line-to-email/id0-d.pdf'',
                Save ''line-to-email/id1-n.txt'' ''plain'', MakePublic ''line-to-email/id1-n.txt'',
                Save ''line-to-email/id2-p.jpg'' ''JPEG'', MakePublic ''line-to-email/id2-p.jpg''],
       uuids_drawn = 3\<rparr>)"
  by (simp add: file_step_def upload_file_def Let_def file_switch push_image_def env0_def
      log_call_def object_key_def world0_def)

section \<open>Form to chat: the claims\<close>

text \<open>
  C7. A submission without files pushes exactly one message, the text message built
  from the three form fields.
\<close>

theorem no_files_one_text_message:
  assumes "files req = None \<or> files req = Some []"
  shows "pushed (calls (snd (email_handler env req w))) = pushed (calls w) @
     [(groupId env, TextMessage (''From: '' @ body_from req @ ''\<newline>Subject: '' @ body_subject req
         @ ''\<newline>\<newline>'' @ body_text req))]"
  using assms
  by (auto simp: email_handler_def first_message_def push_all_single log_call_def res_json_def new_response_def
      pushed_append split: option.splits)

theorem no_files_one_text_message_witness:
  "files no_files_request = None \<and>
   pushed (calls (snd (email_handler env0 no_files_request world0))) =
     [(''G1'', TextMessage ''From: a@example.com\<newline>Subject: Hi\<newline>\<newline>Body'')]"
proof -
  have h: "files no_files_request = None \<or> files no_files_request = Some []"
    by (simp add: no_files_request_def)
  have b: "body_from no_files_request = ''a@example.com''"
    "body_subject no_files_request = ''Hi''" "body_text no_files_request = ''Body''"
    "files no_files_request = None"
    by (simp_all add: no_files_request_def)
  show ?thesis
    using no_files_one_text_message [OF h, of env0 world0]
    by (simp add: b env0_facts world0_facts)
qed

text \<open>
  C6. A submission with one file sniffed as JPEG, when the storage accepts the file and
  the push of the text message succeeds: the handler saves the file, makes it public,
  and then makes two push calls to the group, the text message first and then an image
  message whose two URLs are the public URL of the stored object. The 200 response
  follows when the second push succeeds.
\<close>

theorem one_jpeg_two_messages:
  assumes "files req = Some [f]"
    and "fromBuffer env (buffer f) = Inr (Some r)"
    and "mime r = ''image/jpeg''"
    and "save env (object_key env (uuids_drawn w) (originalname f)) (buffer f) = None"
    and "makePublic env (object_key env (uuids_drawn w) (originalname f)) = None"
    and "pushMessage env (groupId env) (first_message req) = None"
  shows "calls (snd (email_handler env req w)) = calls w @
     [Save (object_key env (uuids_drawn w) (originalname f)) (buffer f),
      MakePublic (object_key env (uuids_drawn w) (originalname f)),
      PushMessage (groupId env) (first_message req),
      PushMessage (groupId env)
        (ImageMessage (publicUrl env (object_key env (uuids_drawn w) (originalname f)))
                      (publicUrl env (object_key env (uuids_drawn w) (originalname f))))] @
     (case pushMessage env (groupId env)
             (ImageMessage (publicUrl env (object_key env (uuids_drawn w) (originalname f)))
                           (publicUrl env (object_key env (uuids_drawn w) (originalname f)))) of
        None \<Rightarrow> [Json 200 NoBody]
      | Some e \<Rightarrow> [])"
  using assms
  by (simp add: email_handler_def file_step_def upload_file_ok file_switch push_image_def
      log_call_def res_json_def new_response_def split: option.splits)

theorem one_jpeg_two_messages_witness:
  "files jpeg_request = Some [\<lparr>buffer = ''JPEG'', originalname = ''p.jpg''\<rparr>] \<and>
   calls (snd (email_handler env0 jpeg_request world0)) =
     [Save ''line-to-email/id0-p.jpg'' ''JPEG'',
      MakePublic ''line-to-email/id0-p.jpg'',
      PushMessage ''G1'' (TextMessage ''From: a@example.com\<newline>Subject: Hi\<newline>\<newline>Body''),
      PushMessage ''G1'' (ImageMessage ''https://storage.example/line-to-email/id0-p.jpg''
                                       ''https://storage.example/line-to-email/id0-p.jpg''),
      Json 200 NoBody]"
proof -
  have h1: "files jpeg_request = Some [\<lparr>buffer = ''JPEG'', originalname = ''p.jpg''\<rparr>]"
    by (simp add: jpeg_request_def)
  have h2: "fromBuffer env0 (buffer \<lparr>buffer = ''JPEG'', originalname = ''p.jpg''\<rparr>) =
      Inr (Some \<lparr>ext = ''jpg'', mime = ''image/jpeg''\<rparr>)"
    by (simp add: env0_def)
  have h3: "mime \<lparr>ext = ''jpg'', mime = ''image/jpeg''\<rparr> = ''image/jpeg''"
    by simp
  have k: "object_key env0 0 ''p.jpg'' = ''line-to-email/id0-p.jpg''"
    by (simp add: object_key_def env0_facts world0_facts)
  have f: "first_message jpeg_request = TextMessage ''From: a@example.com\<newline>Subject: Hi\<newline>\<newline>Body''"
    by (simp add: first_message_def jpeg_request_def)
  show ?thesis
    using h1 one_jpeg_two_messages [OF h1 h2 h3 env0_facts(1) env0_facts(2) env0_facts(3), of world0]
    by (simp add: k f env0_facts world0_facts)
qed

text \<open>
  C3. A submission with one file sniffed as MP4 or M4A audio, when the storage accepts
  the file, the metadata parser answers and the push of the text message succeeds: the
  audio message pushed second has as its duration the product of \<open>D\<close> and 1000, as
  doubles are multiplied, when the metadata give a duration \<open>D\<close> that is neither zero
  nor \<^verbatim>\<open>NaN\<close>, and \<open>0\<close> when they give none or one of these.
\<close>

theorem audio_duration_ms:
  assumes "files req = Some [f]"
    and "fromBuffer env (buffer f) = Inr (Some r)"
    and "mime r = ''audio/mp4'' \<or> mime r = ''audio/x-m4a''"
    and "save env (object_key env (uuids_drawn w) (originalname f)) (buffer f) = None"
    and "makePublic env (object_key env (uuids_drawn w) (originalname f)) = None"
    and "parseBuffer env (buffer f) = Inr metadata"
    and "pushMessage env (groupId env) (first_message req) = None"
  shows "pushed (calls (snd (email_handler env req w))) = pushed (calls w) @
     [(groupId env, first_message req),
      (groupId env,
       AudioMessage (publicUrl env (object_key env (uuids_drawn w) (originalname f)))
         (case format_duration metadata of
            None \<Rightarrow> number_0
          | Some D \<Rightarrow> if number_truthy D then number_times D number_1000 else number_0))]"
  using assms
  by (auto simp: email_handler_def file_step_def upload_file_ok file_switch push_audio_def
      duration_ms_def log_call_def res_json_def new_response_def pushed_append split: option.splits)

text \<open>
  The sample duration \<^verbatim>\<open>1.005\<close>: its product with 1000 is the double
  \<^verbatim>\<open>1004.9999999999999\<close>, with the bits \<^verbatim>\<open>408F67FFFFFFFFFF\<close>.
\<close>

theorem audio_duration_ms_witness:
  "files audio_request = Some [\<lparr>buffer = ''M4A'', originalname = ''v.m4a''\<rparr>] \<and>
   parseBuffer env0 ''M4A'' = Inr \<lparr>format_duration = Some 0x3FF0147AE147AE14\<rparr> \<and>
   pushed (calls (snd (email_handler env0 audio_request world0))) =
     [(''G1'', TextMessage ''From: a@example.com\<newline>Subject: Hi\<newline>\<newline>Body''),
      (''G1'', AudioMessage ''https://storage.example/line-to-email/id0-v.m4a'' 0x408F67FFFFFFFFFF)]"
proof -
  have h1: "files audio_request = Some [\<lparr>buffer = ''M4A'', originalname = ''v.m4a''\<rparr>]"
    by (simp add: audio_request_def)
  have h2: "fromBuffer env0 (buffer \<lparr>buffer = ''M4A'', originalname = ''v.m4a''\<rparr>) =
      Inr (Some \<lparr>ext = ''m4a'', mime = ''audio/x-m4a''\<rparr>)"
    by (simp add: env0_def)
  have h3: "mime \<lparr>ext = ''m4a'', mime = ''audio/x-m4a''\<rparr> = ''audio/mp4'' \<or>
      mime \<lparr>ext = ''m4a'', mime = ''audio/x-m4a''\<rparr> = ''audio/x-m4a''"
    by simp
  have h6: "parseBuffer env0 (buffer \<lparr>buffer = ''M4A'', originalname = ''v.m4a''\<rparr>) =
      Inr \<lparr>format_duration = Some 0x3FF0147AE147AE14\<rparr>"
    by (simp add: env0_def)
  have k: "object_key env0 0 ''v.m4a'' = ''line-to-email/id0-v.m4a''"
    by (simp add: object_key_def env0_facts world0_facts)
  have f: "first_message audio_request = TextMessage ''From: a@example.com\<newline>Subject: Hi\<newline>\<newline>Body''"
    by (simp add: first_message_def audio_request_def)
  have t: "number_truthy 0x3FF0147AE147AE14"
    by (simp add: number_truthy_def is_zero_def is_NaN_def number_exponent_def
        number_fraction_def)
  have p: "number_times 0x3FF0147AE147AE14 number_1000 = 0x408F67FFFFFFFFFF"
    by (simp add: number_times_def number_1000_def is_NaN_def is_infinite_def is_zero_def
        number_exponent_def number_fraction_def number_sign_def significand_def scale_def
        round_to_number_def round_half_even_def make_number_def bit_length.simps Let_def)
  show ?thesis
    using h1 h6 audio_duration_ms [OF h1 h2 h3 env0_facts(1) env0_facts(2) h6 env0_facts(3), of world0]
    by (simp add: k f t p env0_facts world0_facts)
qed

text \<open>
  C9. When no call made while the files are processed is rejected, the storage calls of
  the request are, for every file in order and whatever its sniffed type, a save of the
  file's buffer under the key made of the next identifier of the generator and the
  file's name, followed by making that object public.
\<close>

theorem every_file_uploaded:
  assumes "files req = Some fs"
    and "for_files env fs [first_message req] w = (Inr ma, w1)"
  shows "stored (calls (snd (email_handler env req w))) = stored (calls w) @
     concat (map (\<lambda>(n, f). [Save (object_key env n (originalname f)) (buffer f),
                             MakePublic (object_key env n (originalname f))])
                 (enumerate (uuids_drawn w) fs))"
proof -
  have st: "stored (concat (map (\<lambda>(n, f). [Save (object_key env n (originalname f)) (buffer f),
                             MakePublic (object_key env n (originalname f))]) xs)) =
      concat (map (\<lambda>(n, f). [Save (object_key env n (originalname f)) (buffer f),
                             MakePublic (object_key env n (originalname f))]) xs)" for xs
    by (induction xs) auto
  have w1: "stored (calls w1) = stored (calls w) @
     concat (map (\<lambda>(n, f). [Save (object_key env n (originalname f)) (buffer f),
                             MakePublic (object_key env n (originalname f))])
                 (enumerate (uuids_drawn w) fs))"
    using for_files_Inr [OF assms(2)] by (simp add: stored_append st)
  obtain p w2 where p: "push_all env ma w1 = (p, w2)"
    by (cases "push_all env ma w1")
  have w2: "stored (calls w2) = stored (calls w1)"
    using push_all_stored [of env ma w1] p by simp
  show ?thesis
    using assms p w1 w2
    by (cases p) (simp_all add: email_handler_def res_json_def new_response_def log_call_def stored_append)
qed

theorem every_file_uploaded_witness:
  "files mixed_request = Some [\<lparr>buffer = ''PDF'', originalname = ''d.pdf''\<rparr>,
                               \<lparr>buffer = ''plain'', originalname = ''n.txt''\<rparr>,
                               \<lparr>buffer = ''JPEG'', originalname = ''p.jpg''\<rparr>] \<and>
   fromBuffer env0 ''PDF'' = Inr (Some \<lparr>ext = ''pdf'', mime = ''application/pdf''\<rparr>) \<and>
   fromBuffer env0 ''plain'' = Inr None \<and>
   stored (calls (snd (email_handler env0 mixed_request world0))) =
     [Save ''line-to-email/id0-d.pdf'' ''PDF'', MakePublic ''line-to-email/id0-d.pdf'',
      Save ''line-to-email/id1-n.txt'' ''plain'', MakePublic ''line-to-email/id1-n.txt'',
      Save ''line-to-email/id2-p.jpg'' ''JPEG'', MakePublic ''line-to-email/id2-p.jpg'']"
proof -
  have h1: "files mixed_request = Some [\<lparr>buffer = ''PDF'', originalname = ''d.pdf''\<rparr>,
                               \<lparr>buffer = ''plain'', originalname = ''n.txt''\<rparr>,
                               \<lparr>buffer = ''JPEG'', originalname = ''p.jpg''\<rparr>]"
    by (simp add: mixed_request_def)
  have s: "fromBuffer env0 ''PDF'' = Inr (Some \<lparr>ext = ''pdf'', mime = ''application/pdf''\<rparr>)"
    "fromBuffer env0 ''plain'' = Inr None"
    by (simp_all add: env0_def)
  have k: "object_key env0 0 ''d.pdf'' = ''line-to-email/id0-d.pdf''"
    "object_key env0 (Suc 0) ''n.txt'' = ''line-to-email/id1-n.txt''"
    "object_key env0 (Suc (Suc 0)) ''p.jpg'' = ''line-to-email/id2-p.jpg''"
    by (simp_all add: object_key_def env0_def)
  show ?thesis
    using h1 s every_file_uploaded [OF h1 mixed_files_run]
    by (simp add: k world0_facts)
qed

text \<open>
  C8. A file whose sniffed type is none of the six supported ones, or for which the
  sniffer found no type: once the earlier files are processed and the storage has
  accepted this file, its step ends without error and leaves the message array as it
  was; the loop goes on with the remaining files; and when these are processed, the
  first message pushed is the text message.
\<close>

theorem unsupported_file_dropped:
  assumes "fromBuffer env (buffer f) = Inr r"
    and "map_option mime r \<notin> Some ` {''image/jpeg'', ''image/png'', ''video/mp4'', ''video/x-m4v'',
                                       ''audio/mp4'', ''audio/x-m4a''}"
    and "files req = Some (pre @ f # post)"
    and "for_files env pre [first_message req] w = (Inr ma1, w1)"
    and "upload_file env f w1 = (Inr url, w2)"
  shows "file_step env f ma1 w1 = (Inr ma1, w2) \<and>
     for_files env (pre @ f # post) [first_message req] w = for_files env post ma1 w2 \<and>
     (\<forall>ma w3. for_files env post ma1 w2 = (Inr ma, w3) \<longrightarrow>
        (\<exists>rest. pushed (calls (snd (email_handler env req w))) =
           pushed (calls w) @ (groupId env, first_message req) # rest))"
proof (intro conjI allI impI)
  show step: "file_step env f ma1 w1 = (Inr ma1, w2)"
    using assms(1,2,5) by (auto simp: file_step_def file_switch)
  show all: "for_files env (pre @ f # post) [first_message req] w = for_files env post ma1 w2"
    using assms(4) step by (simp add: for_files_append)
  fix ma w3
  assume post: "for_files env post ma1 w2 = (Inr ma, w3)"
  have whole: "for_files env (pre @ f # post) [first_message req] w = (Inr ma, w3)"
    using all post by simp
  from for_files_Inr [OF whole] obtain xs where ma: "ma = first_message req # xs"
    by auto
  have p3: "pushed (calls w3) = pushed (calls w)"
    using for_files_pushed [OF whole] .
  obtain p w4 where p: "push_all env ma w3 = (p, w4)"
    by (cases "push_all env ma w3")
  from push_all_first [of env "first_message req" xs w3] p ma p3
  obtain rest where rest: "pushed (calls w4) = pushed (calls w) @ (groupId env, first_message req) # rest"
    by auto
  show "\<exists>rest. pushed (calls (snd (email_handler env req w))) =
           pushed (calls w) @ (groupId env, first_message req) # rest"
    using assms(3) whole p rest
    by (cases p) (simp_all add: email_handler_def res_json_def new_response_def log_call_def pushed_append)
qed

theorem unsupported_file_dropped_witness:
  "files mixed_request = Some ([] @ \<lparr>buffer = ''PDF'', originalname = ''d.pdf''\<rparr> #
       [\<lparr>buffer = ''plain'', originalname = ''n.txt''\<rparr>, \<lparr>buffer = ''JPEG'', originalname = ''p.jpg''\<rparr>]) \<and>
   fromBuffer env0 ''PDF'' = Inr (Some \<lparr>ext = ''pdf'', mime = ''application/pdf''\<rparr>) \<and>
   file_step env0 \<lparr>buffer = ''PDF'', originalname = ''d.pdf''\<rparr> [first_message mixed_request] world0 =
     (Inr [first_message mixed_request],
      \<lparr>calls = [Save ''line-to-email/id0-d.pdf'' ''PDF'', MakePublic ''line-to-email/id0-d.pdf''],
       uuids_drawn = 1\<rparr>) \<and>
   (\<exists>rest. pushed (calls (snd (email_handler env0 mixed_request world0))) =
      (''G1'', TextMessage ''From: a@example.com\<newline>Subject: Hi\<newline>\<newline>Body'') # rest)"
proof -
  let ?pdf = "\<lparr>buffer = ''PDF'', originalname = ''d.pdf''\<rparr>"
  let ?post = "[\<lparr>buffer = ''plain'', originalname = ''n.txt''\<rparr>, \<lparr>buffer = ''JPEG'', originalname = ''p.jpg''\<rparr>]"
  let ?w2 = "\<lparr>calls = [Save ''line-to-email/id0-d.pdf'' ''PDF'', MakePublic ''line-to-email/id0-d.pdf''],
       uuids_drawn = 1\<rparr>"
  have h1: "fromBuffer env0 (buffer ?pdf) = Inr (Some \<lparr>ext = ''pdf'', mime = ''application/pdf''\<rparr>)"
    by (simp add: env0_def)
  have h2: "map_option mime (Some \<lparr>ext = ''pdf'', mime = ''application/pdf''\<rparr>) \<notin>
      Some ` {''image/jpeg'', ''image/png'', ''video/mp4'', ''video/x-m4v'', ''audio/mp4'', ''audio/x-m4a''}"
    by simp
  have h3: "files mixed_request = Some ([] @ ?pdf # ?post)"
    by (simp add: mixed_request_def)
  have h4: "for_files env0 [] [first_message mixed_request] world0 =
      (Inr [first_message mixed_request], world0)"
    by simp
  have h5: "upload_file env0 ?pdf world0 = (Inr ''https://storage.example/line-to-email/id0-d.pdf'', ?w2)"
    by (simp add: upload_file_def Let_def env0_def log_call_def object_key_def world0_def)
  have h6: "for_files env0 ?post [first_message mixed_request] ?w2 =
     (Inr [first_message mixed_request,
           ImageMessage ''https://storage.example/line-to-email/id2-p.jpg''
                        ''https://storage.example/line-to-email/id2-p.jpg''],
      \<lparr>calls = [Save ''line-to-email/id0-d.pdf'' ''PDF'', MakePublic ''line-to-email/id0-d.pdf'',
                Save ''line-to-email/id1-n.txt'' ''plain'', MakePublic ''line-to-email/id1-n.txt'',
                Save ''line-to-email/id2-p.jpg'' ''JPEG'', MakePublic ''line-to-email/id2-p.jpg''],
       uuids_drawn = 3\<rparr>)"
    by (simp add: file_step_def upload_file_def Let_def file_switch push_image_def env0_def
        log_call_def object_key_def)
  have f: "first_message mixed_request = TextMessage ''From: a@example.com\<newline>Subject: Hi\<newline>\<newline>Body''"
    by (simp add: first_message_def mixed_request_def)
  from unsupported_file_dropped [OF h1 h2 h3 h4 h5] h6
  have "file_step env0 ?pdf [first_message mixed_request] world0 = (Inr [first_message mixed_request], ?w2)"
    and "\<exists>rest. pushed (calls (snd (email_handler env0 mixed_request world0))) =
           pushed (calls world0) @ (groupId env0, first_message mixed_request) # rest"
    by blast+
  then show ?thesis
    using h1 h3 by (simp add: f env0_facts world0_facts)
qed

end
